theory Spec2Isabelle
  imports Complex_Main "HOL-Library.Word"
begin

section \<open>JavaScript numbers\<close>

text \<open>
  A JavaScript \<open>number\<close> is a double: a real of the form \<open>m * 2 ^ k\<close> with
  \<open>\<bar>m\<bar> < 2 ^ 53\<close> and \<open>k \<ge> -1074\<close>. Every arithmetic operation returns the exact
  result rounded to the nearest double, a tie going to the even mantissa; \<open>fl\<close> is
  that rounding, subnormal range included. The sizes, ratios and percentages of this
  program are far inside the finite range, so overflow to infinity is left out, and
  \<open>NaN\<close> has no counterpart; the guards of the source that exclude it (truthiness
  tests) are kept.

  The derivation of the transform (sizes, centring, dragging) is written with these
  operations. The colour distance and the percentage mapping are written over the
  reals.
\<close>

definition roundEven :: "real \<Rightarrow> int" where
  \<comment> \<open>the nearest integer, the even one at a tie\<close>
  "roundEven y =
     (let f = \<lfloor>y\<rfloor>; d = y - of_int f
      in if d < 1 / 2 then f else if 1 / 2 < d then f + 1 else if even f then f else f + 1)"

definition binade :: "real \<Rightarrow> int" where
  \<comment> \<open>the exponent \<open>e\<close> with \<open>2 ^ e \<le> \<bar>x\<bar> < 2 ^ (e + 1)\<close>, held at -1022 for subnormals\<close>
  "binade x = max \<lfloor>log 2 \<bar>x\<bar>\<rfloor> (- 1022)"

definition fl :: "real \<Rightarrow> real" where
  \<comment> \<open>round to 53 significant bits\<close>
  "fl x =
     (if x = 0 then 0
      else of_int (roundEven (x / 2 powi (binade x - 52))) * 2 powi (binade x - 52))"

definition fadd :: "real \<Rightarrow> real \<Rightarrow> real" where
  "fadd a b = fl (a + b)"

definition fsub :: "real \<Rightarrow> real \<Rightarrow> real" where
  "fsub a b = fl (a - b)"

definition fmul :: "real \<Rightarrow> real \<Rightarrow> real" where
  "fmul a b = fl (a * b)"

definition fdiv :: "real \<Rightarrow> real \<Rightarrow> real" where
  \<comment> \<open>used with a nonzero divisor only\<close>
  "fdiv a b = fl (a / b)"

definition Math_round :: "real \<Rightarrow> real" where
  \<comment> \<open>\<open>Math.round\<close>: the nearest integer, a tie going towards plus infinity; the
      result is exact, not a rounded sum\<close>
  "Math_round v = of_int \<lfloor>v + 1 / 2\<rfloor>"

definition truthy :: "real \<Rightarrow> bool" where
  \<comment> \<open>a number is truthy unless it is zero (or \<open>NaN\<close>)\<close>
  "truthy v = (v \<noteq> 0)"

section \<open>types.ts\<close>

record RGBColor =
  rgb_r :: real
  rgb_g :: real
  rgb_b :: real

record ChromaKeySettings =
  color :: RGBColor
  hexColor :: string
  tolerance :: real

record VideoTransform =
  tr_x :: real
  tr_y :: real
  tr_width :: real
  tr_height :: real
  tr_size :: real

text \<open>\<open>Partial<VideoTransform>\<close>: every field may be absent.\<close>

record PartialTransform =
  p_x :: "real option"
  p_y :: "real option"
  p_width :: "real option"
  p_height :: "real option"
  p_size :: "real option"

record LayerDimensions =
  dim_width :: real
  dim_height :: real

section \<open>App.tsx: the transform state\<close>

record AppState =
  topLayerAspectRatio :: "real option"
  bottomLayerDimensions :: "LayerDimensions option"
  videoTransform :: VideoTransform

definition ready :: "AppState \<Rightarrow> (real \<times> LayerDimensions) option" where
  \<comment> \<open>\<open>topLayerAspectRatio && bottomLayerDimensions\<close>\<close>
  "ready st =
     (case topLayerAspectRatio st of
        None \<Rightarrow> None
      | Some ar \<Rightarrow>
          (if truthy ar
           then (case bottomLayerDimensions st of None \<Rightarrow> None | Some d \<Rightarrow> Some (ar, d))
           else None))"

definition resetTransformEffect :: "AppState \<Rightarrow> AppState" where
  \<comment> \<open>the effect that runs when the aspect ratio or the bottom dimensions change\<close>
  "resetTransformEffect st =
     (case ready st of
        None \<Rightarrow> st
      | Some (ar, d) \<Rightarrow>
          (let widthAt100Percent = fmul (dim_width d) 0.5;
               newWidth = widthAt100Percent;
               newHeight = fdiv newWidth ar
           in st\<lparr>videoTransform :=
                 \<lparr>tr_x = Math_round (fdiv (fsub (dim_width d) newWidth) 2),
                  tr_y = Math_round (fdiv (fsub (dim_height d) newHeight) 2),
                  tr_width = Math_round newWidth,
                  tr_height = Math_round newHeight,
                  tr_size = 100\<rparr>\<rparr>))"

definition spread :: "VideoTransform \<Rightarrow> PartialTransform \<Rightarrow> VideoTransform" where
  \<comment> \<open>\<open>{ ...prev, ...newPartialTransform }\<close>\<close>
  "spread prev p =
     \<lparr>tr_x = (case p_x p of None \<Rightarrow> tr_x prev | Some v \<Rightarrow> v),
      tr_y = (case p_y p of None \<Rightarrow> tr_y prev | Some v \<Rightarrow> v),
      tr_width = (case p_width p of None \<Rightarrow> tr_width prev | Some v \<Rightarrow> v),
      tr_height = (case p_height p of None \<Rightarrow> tr_height prev | Some v \<Rightarrow> v),
      tr_size = (case p_size p of None \<Rightarrow> tr_size prev | Some v \<Rightarrow> v)\<rparr>"

definition handleTransformChange :: "AppState \<Rightarrow> PartialTransform \<Rightarrow> AppState" where
  "handleTransformChange st newPartialTransform =
     (case ready st of
        None \<Rightarrow> st
      | Some (ar, d) \<Rightarrow>
          (let updatedTransform = spread (videoTransform st) newPartialTransform
           in st\<lparr>videoTransform :=
                 (case p_size newPartialTransform of
                    None \<Rightarrow> updatedTransform
                  | Some s \<Rightarrow>
                      (let baseWidth = fmul (dim_width d) 0.5;
                           newWidth = fmul baseWidth (fdiv s 100)
                       in updatedTransform
                            \<lparr>tr_width := Math_round newWidth,
                             tr_height := Math_round (fdiv newWidth ar)\<rparr>))\<rparr>))"

definition noPartial :: PartialTransform where
  "noPartial = \<lparr>p_x = None, p_y = None, p_width = None, p_height = None, p_size = None\<rparr>"

definition initialState :: AppState where
  \<comment> \<open>the \<open>useState\<close> initial values\<close>
  "initialState =
     \<lparr>topLayerAspectRatio = None, bottomLayerDimensions = None,
      videoTransform = \<lparr>tr_x = 0, tr_y = 0, tr_width = 0, tr_height = 0, tr_size = 100\<rparr>\<rparr>"

text \<open>
  The load handlers read the intrinsic size of the element (\<open>naturalWidth\<close> and
  \<open>naturalHeight\<close> of an image, \<open>videoWidth\<close> and \<open>videoHeight\<close> of a video); the
  element is represented by that pair. Each handler is followed by the effect, whose
  dependencies it changes.
\<close>

definition handleBottomLayerLoad :: "real \<times> real \<Rightarrow> AppState \<Rightarrow> AppState" where
  "handleBottomLayerLoad el st =
     (case el of (w, h) \<Rightarrow>
        if w > 0 \<and> h > 0
        then st\<lparr>bottomLayerDimensions := Some \<lparr>dim_width = w, dim_height = h\<rparr>\<rparr>
        else st)"

definition handleTopLayerLoad :: "real \<times> real \<Rightarrow> AppState \<Rightarrow> AppState" where
  "handleTopLayerLoad el st =
     (case el of (w, h) \<Rightarrow>
        (let aspectRatio = (if w > 0 \<and> h > 0 then Some (fdiv w h) else None)
         in case aspectRatio of
              None \<Rightarrow> st
            | Some ar \<Rightarrow> if truthy ar then st\<lparr>topLayerAspectRatio := Some ar\<rparr> else st))"

definition loadScenario :: "real \<times> real \<Rightarrow> real \<times> real \<Rightarrow> AppState" where
  \<comment> \<open>a background, then a foreground, are loaded into a fresh session\<close>
  "loadScenario bg fg =
     resetTransformEffect (handleTopLayerLoad fg
       (resetTransformEffect (handleBottomLayerLoad bg initialState)))"

section \<open>App.tsx: colour conversion\<close>

definition isHexChar :: "char \<Rightarrow> bool" where
  \<comment> \<open>the class \<open>[a-f\d]\<close> under the flag \<open>i\<close>\<close>
  "isHexChar c =
     (let n = (of_char c :: nat)
      in (48 \<le> n \<and> n \<le> 57) \<or> (97 \<le> n \<and> n \<le> 102) \<or> (65 \<le> n \<and> n \<le> 70))"

definition hexValue :: "char \<Rightarrow> nat" where
  "hexValue c =
     (let n = (of_char c :: nat)
      in if 48 \<le> n \<and> n \<le> 57 then n - 48
         else if 97 \<le> n \<and> n \<le> 102 then n - 87
         else n - 55)"

definition parseInt16 :: "string \<Rightarrow> nat" where
  \<comment> \<open>\<open>parseInt(s, 16)\<close> on a string of hexadecimal digits\<close>
  "parseInt16 s = foldl (\<lambda>acc c. 16 * acc + hexValue c) 0 s"

definition hexToRgb :: "string \<Rightarrow> RGBColor option" where
  \<comment> \<open>the pattern \<open>/^#?([a-f\d]{2})([a-f\d]{2})([a-f\d]{2})$/i\<close>, then three \<open>parseInt\<close>\<close>
  "hexToRgb hex =
     (let digits = (case hex of [] \<Rightarrow> hex | c # cs \<Rightarrow> if c = CHR ''#'' then cs else hex)
      in if length digits = 6 \<and> list_all isHexChar digits
         then Some \<lparr>rgb_r = real (parseInt16 (take 2 digits)),
                    rgb_g = real (parseInt16 (take 2 (drop 2 digits))),
                    rgb_b = real (parseInt16 (take 2 (drop 4 digits)))\<rparr>
         else None)"

definition js_shl :: "int \<Rightarrow> nat \<Rightarrow> int" where
  \<comment> \<open>\<open>a << k\<close> on an integer: the operand is taken to 32 bits, the result is signed\<close>
  "js_shl a k = sint (push_bit k (word_of_int a :: 32 word))"

definition hexDigit :: "nat \<Rightarrow> char" where
  "hexDigit d = ''0123456789abcdef'' ! d"

function toString16 :: "nat \<Rightarrow> string" where
  "toString16 n =
     (if n < 16 then [hexDigit n] else toString16 (n div 16) @ [hexDigit (n mod 16)])"
  by pat_completeness auto
termination
  by (relation "measure (\<lambda>n. n)") auto

declare toString16.simps [simp del]

definition int_toString16 :: "int \<Rightarrow> string" where
  \<comment> \<open>\<open>toString(16)\<close> of an integer\<close>
  "int_toString16 v = (if v < 0 then CHR ''-'' # toString16 (nat (- v)) else toString16 (nat v))"

definition toUpperChar :: "char \<Rightarrow> char" where
  "toUpperChar c =
     (let n = (of_char c :: nat) in if 97 \<le> n \<and> n \<le> 122 then char_of (n - 32) else c)"

definition toUpperCase :: "string \<Rightarrow> string" where
  "toUpperCase s = map toUpperChar s"

definition rgbToHex :: "int \<Rightarrow> int \<Rightarrow> int \<Rightarrow> string" where
  \<comment> \<open>the channels are integers; \<open>slice(1)\<close> drops the first character\<close>
  "rgbToHex r g b =
     CHR ''#'' # toUpperCase (drop 1 (int_toString16 (js_shl 1 24 + js_shl r 16 + js_shl g 8 + b)))"

section \<open>PreviewCanvas: the chroma-key filter\<close>

text \<open>
  \<open>imageData.data\<close> is a \<open>Uint8ClampedArray\<close>: a list of bytes, four per pixel (red,
  green, blue, alpha). Reading past the end gives \<open>undefined\<close>, which makes the
  distance \<open>NaN\<close> and the comparison false; writing past the end is ignored, as
  \<open>list_update\<close> does.
\<close>

type_synonym byte = "8 word"

definition readByte :: "byte list \<Rightarrow> nat \<Rightarrow> real option" where
  "readByte data i = (if i < length data then Some (real (unat (data ! i))) else None)"

definition distance :: "RGBColor \<Rightarrow> real \<Rightarrow> real \<Rightarrow> real \<Rightarrow> real" where
  "distance keyColor r g b =
     sqrt ((r - rgb_r keyColor) ^ 2 + (g - rgb_g keyColor) ^ 2 + (b - rgb_b keyColor) ^ 2)"

definition keyedOut :: "RGBColor \<Rightarrow> real \<Rightarrow> byte list \<Rightarrow> nat \<Rightarrow> bool" where
  \<comment> \<open>the test \<open>distance < tolerance\<close> of the pixel that starts at index \<open>i\<close>\<close>
  "keyedOut keyColor tol data i =
     (case readByte data i of
        None \<Rightarrow> False
      | Some r \<Rightarrow>
          (case readByte data (i + 1) of
             None \<Rightarrow> False
           | Some g \<Rightarrow>
               (case readByte data (i + 2) of
                  None \<Rightarrow> False
                | Some b \<Rightarrow> distance keyColor r g b < tol)))"

function chromaKeyLoop :: "RGBColor \<Rightarrow> real \<Rightarrow> nat \<Rightarrow> byte list \<Rightarrow> byte list" where
  "chromaKeyLoop keyColor tol i data =
     (if i < length data
      then chromaKeyLoop keyColor tol (i + 4)
             (if keyedOut keyColor tol data i then data[i + 3 := 0] else data)
      else data)"
  by pat_completeness auto
termination
  by (relation "measure (\<lambda>(keyColor, tol, i, data). length data - i)") auto

declare chromaKeyLoop.simps [simp del]

definition chromaKey :: "ChromaKeySettings \<Rightarrow> byte list \<Rightarrow> byte list" where
  \<comment> \<open>the loop of \<open>render\<close> over one frame's pixel data\<close>
  "chromaKey chromaKeySettings data =
     chromaKeyLoop (color chromaKeySettings) (tolerance chromaKeySettings) 0 data"

section \<open>PreviewCanvas: one frame of the render loop\<close>

text \<open>
  A layer element is an image or a video with its intrinsic size; a video is paused or
  playing. The drawing context receives a list of operations. What the off-screen
  canvas holds after \<open>putImageData\<close> is the filtered pixel data. \<open>getImageData\<close> either
  returns the pixel data of the foreground frame or throws (a tainted canvas), which is
  the value \<open>None\<close>.
\<close>

datatype element = ImageElement real real | VideoElement real real bool

datatype image_source = BottomLayer | TopLayer | OffscreenCanvas "byte list"

datatype ctx_op =
    DrawImage image_source real real real real
  | FillRect string real real real real

record RenderInput =
  bottomLayerElement :: "element option"
  topLayerElement :: "element option"
  canvasDims :: LayerDimensions
  renderTransform :: VideoTransform
  chromaKeySettings :: ChromaKeySettings
  isRecording :: bool
  getImageData :: "byte list option"

record Frame =
  ctxOps :: "ctx_op list"
  playCalls :: "image_source list"
  consoleErrors :: "string list"
  frameRequested :: bool

fun intrinsicSize :: "element \<Rightarrow> real \<times> real" where
  "intrinsicSize (ImageElement w h) = (w, h)"
| "intrinsicSize (VideoElement w h paused) = (w, h)"

fun pausedVideo :: "element option \<Rightarrow> bool" where
  "pausedVideo (Some (VideoElement w h paused)) = paused"
| "pausedVideo el = False"

definition render :: "RenderInput \<Rightarrow> Frame" where
  "render inp =
     (let plays =
            (if isRecording inp
             then (if pausedVideo (bottomLayerElement inp) then [BottomLayer] else []) @
                  (if pausedVideo (topLayerElement inp) then [TopLayer] else [])
             else []);
          cw = dim_width (canvasDims inp);
          ch = dim_height (canvasDims inp);
          t = renderTransform inp;
          bottom =
            (case bottomLayerElement inp of
               Some el \<Rightarrow> [DrawImage BottomLayer 0 0 cw ch]
             | None \<Rightarrow> [FillRect ''#374151'' 0 0 cw ch]);
          top =
            (case topLayerElement inp of
               None \<Rightarrow> ([], [])
             | Some el \<Rightarrow>
                 (case intrinsicSize el of (topWidth, topHeight) \<Rightarrow>
                    if topWidth > 0 \<and> topHeight > 0
                    then (case getImageData inp of
                            Some data \<Rightarrow>
                              ([DrawImage (OffscreenCanvas (chromaKey (chromaKeySettings inp) data))
                                  (tr_x t) (tr_y t) (tr_width t) (tr_height t)], [])
                          | None \<Rightarrow>
                              ([DrawImage TopLayer (tr_x t) (tr_y t) (tr_width t) (tr_height t)],
                               [''Error processing top layer frame (getImageData):'']))
                    else ([], [])))
      in \<lparr>ctxOps = bottom @ fst top, playCalls = plays, consoleErrors = snd top,
          frameRequested = True\<rparr>)"

text \<open>
  The loop: each frame that requests the next one is followed by it. The list gives,
  frame by frame, what \<open>getImageData\<close> does in that frame.
\<close>

fun renderLoop :: "RenderInput \<Rightarrow> byte list option list \<Rightarrow> Frame list" where
  "renderLoop inp [] = []"
| "renderLoop inp (readback # later) =
     (let frame = render (inp\<lparr>getImageData := readback\<rparr>)
      in frame # (if frameRequested frame then renderLoop inp later else []))"

section \<open>PreviewCanvas: dragging\<close>

record DragStart =
  startX :: real
  startY :: real
  initialTransformX :: real
  initialTransformY :: real

definition handleDragMove ::
  "bool \<Rightarrow> DragStart option \<Rightarrow> (real \<times> real) option \<Rightarrow> PartialTransform option" where
  \<comment> \<open>the partial handed to \<open>onTransformChange\<close>, if any\<close>
  "handleDragMove isDragging dragStartRef pos =
     (if isDragging
      then (case dragStartRef of
              None \<Rightarrow> None
            | Some start \<Rightarrow>
                (case pos of
                   None \<Rightarrow> None
                 | Some (px, py) \<Rightarrow>
                     (let dx = fsub px (startX start); dy = fsub py (startY start)
                      in Some (noPartial
                           \<lparr>p_x := Some (Math_round (fadd (initialTransformX start) dx)),
                            p_y := Some (Math_round (fadd (initialTransformY start) dy))\<rparr>))))
      else None)"

section \<open>VideoControls: position as a percentage\<close>

datatype PercentageInputKeys = lr_pos_percent | ud_pos_percent

definition toFixed1 :: "real \<Rightarrow> real" where
  \<comment> \<open>the number that the string \<open>v.toFixed(1)\<close> denotes, for \<open>v \<ge> 0\<close>: the nearest
      tenth, the larger one at a tie\<close>
  "toFixed1 v = of_int \<lfloor>v * 10 + 1 / 2\<rfloor> / 10"

definition positionPercent :: "real \<Rightarrow> real \<Rightarrow> real" where
  \<comment> \<open>\<open>lrPercent\<close> and \<open>udPercent\<close> after clamping: \<open>offset\<close> is \<open>transform.x\<close> or
      \<open>transform.y\<close>, \<open>movable\<close> is \<open>movableWidth\<close> or \<open>movableHeight\<close>\<close>
  "positionPercent offset movable =
     max 0 (min 100 (if movable \<le> 0 then 50 else (offset / movable) * 100))"

record PercentValues =
  lr_shown :: "real option"
  ud_shown :: "real option"

definition percentEffect ::
  "LayerDimensions option \<Rightarrow> real option \<Rightarrow> VideoTransform \<Rightarrow> bool \<Rightarrow> PercentValues
     \<Rightarrow> PercentValues" where
  \<comment> \<open>the effect that fills the two inputs; \<open>None\<close> stands for the text \<open>N/A\<close>\<close>
  "percentEffect bottomDims aspect transform isInputFocused percentValues =
     (case bottomDims of
        None \<Rightarrow> \<lparr>lr_shown = None, ud_shown = None\<rparr>
      | Some d \<Rightarrow>
          (case aspect of
             None \<Rightarrow> \<lparr>lr_shown = None, ud_shown = None\<rparr>
           | Some ar \<Rightarrow>
               if \<not> truthy ar then \<lparr>lr_shown = None, ud_shown = None\<rparr>
               else if isInputFocused then percentValues
               else (let movableWidth = dim_width d - tr_width transform;
                         movableHeight = dim_height d - tr_height transform
                     in \<lparr>lr_shown = Some (toFixed1 (positionPercent (tr_x transform) movableWidth)),
                         ud_shown = Some (toFixed1 (positionPercent (tr_y transform) movableHeight))\<rparr>)))"

definition percentToPixel :: "real \<Rightarrow> real \<Rightarrow> real" where
  \<comment> \<open>the value written to \<open>newPixelTransform.x\<close> (or \<open>.y\<close>)\<close>
  "percentToPixel movable numValue =
     (if movable \<le> 0 then movable / 2 else Math_round ((numValue / 100) * movable))"

definition handlePercentageInputChange ::
  "LayerDimensions option \<Rightarrow> real option \<Rightarrow> VideoTransform \<Rightarrow> PercentageInputKeys
     \<Rightarrow> real option \<Rightarrow> PartialTransform option" where
  \<comment> \<open>\<open>numValue\<close> is \<open>parseFloat(value)\<close>, \<open>None\<close> when it is \<open>NaN\<close>; the result is the
      partial handed to \<open>onTransformChange\<close>, if any (the typed text itself is also
      stored for display, which no transform depends on)\<close>
  "handlePercentageInputChange bottomDims aspect transform name numValue =
     (case bottomDims of
        None \<Rightarrow> None
      | Some d \<Rightarrow>
          (case aspect of
             None \<Rightarrow> None
           | Some ar \<Rightarrow>
               if \<not> truthy ar then None
               else (case numValue of
                       None \<Rightarrow> None
                     | Some v \<Rightarrow>
                         (case name of
                            lr_pos_percent \<Rightarrow>
                              Some (noPartial
                                \<lparr>p_x := Some (percentToPixel (dim_width d - tr_width transform) v)\<rparr>)
                          | ud_pos_percent \<Rightarrow>
                              Some (noPartial
                                \<lparr>p_y := Some (percentToPixel (dim_height d - tr_height transform) v)\<rparr>)))))"

definition roundTrip ::
  "LayerDimensions \<Rightarrow> real \<Rightarrow> VideoTransform \<Rightarrow> PercentageInputKeys \<Rightarrow> PartialTransform option" where
  \<comment> \<open>the percentage of one axis is shown for a transform, and the shown value is
      entered again unchanged\<close>
  "roundTrip d ar transform name =
     (let shown = percentEffect (Some d) (Some ar) transform False
                    \<lparr>lr_shown = None, ud_shown = None\<rparr>
      in handlePercentageInputChange (Some d) (Some ar) transform name
           (case name of lr_pos_percent \<Rightarrow> lr_shown shown | ud_pos_percent \<Rightarrow> ud_shown shown))"

definition bottomOps :: "RenderInput \<Rightarrow> ctx_op list" where
  \<comment> \<open>what every frame draws first: the background, or the placeholder colour\<close>
  "bottomOps inp =
     (case bottomLayerElement inp of
        Some el \<Rightarrow> [DrawImage BottomLayer 0 0 (dim_width (canvasDims inp)) (dim_height (canvasDims inp))]
      | None \<Rightarrow> [FillRect ''#374151'' 0 0 (dim_width (canvasDims inp)) (dim_height (canvasDims inp))])"


definition frameExample :: RenderInput where
  \<comment> \<open>an 800 by 600 background image under a playing 400 by 400 foreground video\<close>
  "frameExample =
     \<lparr>bottomLayerElement = Some (ImageElement 800 600),
      topLayerElement = Some (VideoElement 400 400 False),
      canvasDims = \<lparr>dim_width = 800, dim_height = 600\<rparr>,
      renderTransform = \<lparr>tr_x = 200, tr_y = 100, tr_width = 400, tr_height = 400, tr_size = 100\<rparr>,
      chromaKeySettings =
        \<lparr>color = \<lparr>rgb_r = 0, rgb_g = 255, rgb_b = 0\<rparr>, hexColor = ''#00FF00'', tolerance = 50\<rparr>,
      isRecording = False,
      getImageData = None\<rparr>"

section \<open>App.tsx: recording\<close>

record MimeChoice =
  mimeType :: string
  extension :: string

definition webmPrioritizedTypes :: "MimeChoice list" where
  "webmPrioritizedTypes =
     [\<lparr>mimeType = ''video/webm;codecs=vp9,opus'', extension = ''webm''\<rparr>,
      \<lparr>mimeType = ''video/webm;codecs=vp8,vorbis'', extension = ''webm''\<rparr>,
      \<lparr>mimeType = ''video/webm'', extension = ''webm''\<rparr>,
      \<lparr>mimeType = ''video/mp4'', extension = ''mp4''\<rparr>]"

definition mp4PrioritizedTypes :: "MimeChoice list" where
  "mp4PrioritizedTypes =
     [\<lparr>mimeType = ''video/mp4'', extension = ''mp4''\<rparr>,
      \<lparr>mimeType = ''video/webm;codecs=vp9,opus'', extension = ''webm''\<rparr>]"

fun firstSupported :: "(string \<Rightarrow> bool) \<Rightarrow> MimeChoice list \<Rightarrow> MimeChoice option" where
  \<comment> \<open>the \<open>for\<close> loop over \<open>typesToCheck\<close>, which returns at the first supported type\<close>
  "firstSupported isTypeSupported [] = None"
| "firstSupported isTypeSupported (type # types) =
     (if isTypeSupported (mimeType type) then Some type
      else firstSupported isTypeSupported types)"

text \<open>
  The browser is represented by the outcome of the user agent test (\<open>isSafari\<close>) and
  by \<open>MediaRecorder.isTypeSupported\<close>.
\<close>

definition typesToCheck :: "bool \<Rightarrow> MimeChoice list" where
  "typesToCheck isSafari = (if isSafari then mp4PrioritizedTypes else webmPrioritizedTypes)"

definition getSupportedMimeType :: "bool \<Rightarrow> (string \<Rightarrow> bool) \<Rightarrow> MimeChoice" where
  "getSupportedMimeType isSafari isTypeSupported =
     (case firstSupported isTypeSupported (typesToCheck isSafari) of
        Some type \<Rightarrow> type
      | None \<Rightarrow> \<lparr>mimeType = '''', extension = ''webm''\<rparr>)"

text \<open>
  A video element as the recording code sees it. \<open>connects\<close> says whether
  \<open>createMediaElementSource\<close> and \<open>connect\<close> succeed for it; when they throw, the
  exception is caught and a warning is logged.
\<close>

record VideoEl =
  muted :: bool
  readyState :: nat
  connects :: bool
  looping :: bool
  currentTime :: real
  playRequested :: bool

datatype track = VideoTrack | AudioTrack nat

record MediaRecorder =
  stream :: "track list"
  recorderMimeType :: string
  downloadExtension :: string
  recordedChunks :: "string list"
  started :: bool

record Browser =
  canvasPresent :: bool
  isSafari :: bool
  isTypeSupported :: "string \<Rightarrow> bool"
  sinkAudioTracks :: "nat list"

record RecordingState =
  videoElements :: "VideoEl list"
  mediaRecorderRef :: "MediaRecorder option"
  recording :: bool
  alerts :: "string list"
  warnings :: "string list"
  downloads :: "string list"

fun connectAudio :: "VideoEl list \<Rightarrow> bool \<times> string list \<Rightarrow> bool \<times> string list" where
  \<comment> \<open>the second \<open>forEach\<close>; the pair is \<open>hasAudio\<close> and the warnings logged so far\<close>
  "connectAudio [] acc = acc"
| "connectAudio (videoEl # rest) (hasAudio, warned) =
     connectAudio rest
       (if readyState videoEl > 0
        then (if connects videoEl then (True, warned)
              else (hasAudio, warned @ [''Could not process audio for video'']))
        else (hasAudio, warned))"

definition handleStartRecording :: "Browser \<Rightarrow> RecordingState \<Rightarrow> RecordingState" where
  "handleStartRecording browser st =
     (if \<not> canvasPresent browser then st
      else
        (let unmuted = map (\<lambda>v. v\<lparr>muted := False\<rparr>) (videoElements st);
             (hasAudio, warned) = connectAudio unmuted (False, []);
             finalStream =
               VideoTrack # (if hasAudio then map AudioTrack (sinkAudioTracks browser) else []);
             supportedType = getSupportedMimeType (isSafari browser) (isTypeSupported browser)
         in if mimeType supportedType = ''''
            then st\<lparr>videoElements := map (\<lambda>v. v\<lparr>muted := True\<rparr>) unmuted,
                    alerts := alerts st @ [''Sorry, your browser doesn't support video recording.''],
                    warnings := warnings st @ warned\<rparr>
            else st\<lparr>videoElements :=
                      map (\<lambda>v. v\<lparr>looping := True, currentTime := 0, playRequested := True\<rparr>) unmuted,
                    mediaRecorderRef :=
                      Some \<lparr>stream = finalStream,
                            recorderMimeType = mimeType supportedType,
                            downloadExtension = extension supportedType,
                            recordedChunks = [],
                            started = True\<rparr>,
                    recording := True,
                    warnings := warnings st @ warned\<rparr>))"

definition onstop :: "MediaRecorder \<Rightarrow> RecordingState \<Rightarrow> RecordingState" where
  \<comment> \<open>the \<open>onstop\<close> handler installed by \<open>handleStartRecording\<close>\<close>
  "onstop recorder st =
     st\<lparr>downloads := downloads st @ [''videyo_export.'' @ downloadExtension recorder],
        videoElements := map (\<lambda>v. v\<lparr>muted := True\<rparr>) (videoElements st)\<rparr>"

definition handleStopRecording :: "RecordingState \<Rightarrow> RecordingState" where
  \<comment> \<open>\<open>stop()\<close> fires \<open>onstop\<close>\<close>
  "handleStopRecording st =
     (case mediaRecorderRef st of
        Some recorder \<Rightarrow> onstop recorder (st\<lparr>recording := False\<rparr>)
      | None \<Rightarrow> st\<lparr>recording := False\<rparr>)"

text \<open>Example browsers and sessions, used to evaluate the recording code.\<close>

definition mp4OnlyBrowser :: Browser where
  \<comment> \<open>not Safari, and the recorder supports nothing but \<open>video/mp4\<close>\<close>
  "mp4OnlyBrowser =
     \<lparr>canvasPresent = True, isSafari = False,
      isTypeSupported = (\<lambda>s. s = ''video/mp4''), sinkAudioTracks = [0]\<rparr>"

definition noRecorderBrowser :: Browser where
  \<comment> \<open>the recorder supports no candidate\<close>
  "noRecorderBrowser =
     \<lparr>canvasPresent = True, isSafari = True,
      isTypeSupported = (\<lambda>s. False), sinkAudioTracks = [0]\<rparr>"

definition readyVideo :: VideoEl where
  "readyVideo =
     \<lparr>muted = True, readyState = 4, connects = True, looping = True, currentTime = 3,
      playRequested = True\<rparr>"

definition brokenVideo :: VideoEl where
  \<comment> \<open>ready, but connecting its audio throws\<close>
  "brokenVideo =
     \<lparr>muted = True, readyState = 4, connects = False, looping = True, currentTime = 3,
      playRequested = True\<rparr>"

definition session :: "VideoEl list \<Rightarrow> RecordingState" where
  \<comment> \<open>an idle session over the given video elements\<close>
  "session vs =
     \<lparr>videoElements = vs, mediaRecorderRef = None, recording = False, alerts = [],
      warnings = [], downloads = []\<rparr>"

section \<open>Double-precision rounding\<close>

lemma binade_eq:
  assumes "2 powi e \<le> \<bar>x\<bar>" and "\<bar>x\<bar> < 2 powi (e + 1)"
  shows "binade x = max e (- 1022)"
proof -
  have "0 < (2 :: real) powi e"
    by simp
  then have pos: "0 < \<bar>x\<bar>"
    using assms(1) by linarith
  have up: "2 powr (real_of_int e + 1) = 2 powi (e + 1)"
    using powr_real_of_int' [of 2 "e + 1"] by simp
  have "\<lfloor>log 2 \<bar>x\<bar>\<rfloor> = e"
    using assms pos by (simp add: floor_log_eq_powr_iff powr_real_of_int' up)
  then show ?thesis
    by (simp add: binade_def)
qed

lemma fl_eval:
  assumes "2 powi e \<le> \<bar>x\<bar>" and "\<bar>x\<bar> < 2 powi (e + 1)" and "- 1022 \<le> e"
  shows "fl x = of_int (roundEven (x / 2 powi (e - 52))) * 2 powi (e - 52)"
proof -
  have "0 < (2 :: real) powi e"
    by simp
  then have "0 < \<bar>x\<bar>"
    using assms(1) by linarith
  then have "x \<noteq> 0"
    by simp
  moreover have "binade x = e"
    using binade_eq [OF assms(1,2)] assms(3) by simp
  ultimately show ?thesis
    by (simp add: fl_def)
qed

lemma roundEven_of_int: "roundEven (of_int j) = j"
  by (simp add: roundEven_def)

lemma binade_bounds:
  assumes "x \<noteq> 0"
  shows "2 powi \<lfloor>log 2 \<bar>x\<bar>\<rfloor> \<le> \<bar>x\<bar>" and "\<bar>x\<bar> < 2 powi (\<lfloor>log 2 \<bar>x\<bar>\<rfloor> + 1)"
proof -
  define e where "e = \<lfloor>log 2 \<bar>x\<bar>\<rfloor>"
  have pos: "0 < \<bar>x\<bar>"
    using assms by simp
  have "2 powr real_of_int e \<le> \<bar>x\<bar> \<and> \<bar>x\<bar> < 2 powr (real_of_int e + 1)"
    using floor_log_eq_powr_iff [of "\<bar>x\<bar>" 2 e] pos by (simp add: e_def)
  moreover have "2 powr (real_of_int e + 1) = 2 powi (e + 1)"
    using powr_real_of_int' [of 2 "e + 1"] by simp
  moreover have "2 powr real_of_int e = 2 powi e"
    using powr_real_of_int' [of 2 e] by simp
  ultimately show "2 powi \<lfloor>log 2 \<bar>x\<bar>\<rfloor> \<le> \<bar>x\<bar>" "\<bar>x\<bar> < 2 powi (\<lfloor>log 2 \<bar>x\<bar>\<rfloor> + 1)"
    by (simp_all add: e_def)
qed

lemma fl_exact:
  assumes x: "x = of_int m * 2 powi k" and m: "\<bar>m\<bar> < 2 ^ 53" and k: "- 1074 \<le> k"
  shows "fl x = x"
proof (cases "m = 0")
  case True
  then show ?thesis
    by (simp add: x fl_def)
next
  case False
  then have nz: "x \<noteq> 0"
    by (simp add: x)
  define e where "e = \<lfloor>log 2 \<bar>x\<bar>\<rfloor>"
  have lo: "2 powi e \<le> \<bar>x\<bar>"
    unfolding e_def using nz by (rule binade_bounds)
  have absx: "\<bar>x\<bar> = of_int \<bar>m\<bar> * 2 powi k"
    by (simp add: x abs_mult)
  have "e - 52 \<le> k"
  proof (rule ccontr)
    assume "\<not> e - 52 \<le> k"
    then have far: "k + 53 \<le> e"
      by simp
    have "real_of_int \<bar>m\<bar> < 2 ^ 53"
      using m by (metis of_int_less_iff of_int_numeral of_int_power)
    then have "\<bar>x\<bar> < 2 ^ 53 * 2 powi k"
      unfolding absx by (intro mult_strict_right_mono) simp_all
    also have "(2 :: real) ^ 53 * 2 powi k = 2 powi (k + 53)"
      by (simp add: power_int_add)
    also have "\<dots> \<le> 2 powi e"
      using far by (intro power_int_increasing) simp_all
    finally show False
      using lo by simp
  qed
  define q where "q = binade x - 52"
  have q: "q \<le> k"
    using \<open>e - 52 \<le> k\<close> k by (simp add: q_def binade_def e_def)
  define n where "n = nat (k - q)"
  have kq: "k = q + int n"
    using q by (simp add: n_def)
  have pw: "(2 :: real) powi k = 2 powi q * 2 ^ n"
    unfolding kq by (simp add: power_int_add power_int_of_nat)
  have "x / 2 powi q = of_int m * 2 ^ n"
    unfolding x pw by simp
  also have "\<dots> = of_int (m * 2 ^ n)"
    by simp
  finally have "roundEven (x / 2 powi q) = m * 2 ^ n"
    by (simp only: roundEven_of_int)
  then have "fl x = of_int (m * 2 ^ n) * 2 powi q"
    using nz by (simp add: fl_def q_def)
  also have "\<dots> = of_int m * (2 powi q * 2 ^ n)"
    by simp
  also have "\<dots> = x"
    unfolding pw [symmetric] by (simp add: x)
  finally show ?thesis .
qed

lemma fl_of_int:
  assumes "\<bar>n\<bar> < 2 ^ 53"
  shows "fl (of_int n) = of_int n"
  using fl_exact [of "of_int n" n 0] assms by simp

lemma fl_half:
  assumes "\<bar>n\<bar> < 2 ^ 53"
  shows "fl (of_int n / 2) = of_int n / 2"
  using fl_exact [of "of_int n / 2" n "- 1"] assms by (simp add: power_int_minus)

lemma fl_numeral:
  assumes "(numeral w :: int) < 2 ^ 53"
  shows "fl (numeral w) = numeral w" and "fl (- numeral w) = - numeral w"
    and "fl (numeral w / 2) = numeral w / 2" and "fl (- (numeral w / 2)) = - (numeral w / 2)"
  using fl_of_int [of "numeral w"] fl_of_int [of "- numeral w"]
    fl_half [of "numeral w"] fl_half [of "- numeral w"] assms
  by simp_all

lemma fl_0: "fl 0 = 0"
  by (simp add: fl_def)

lemma fl_1: "fl 1 = 1"
  using fl_of_int [of 1] by simp

lemma roundEven_between: "\<lfloor>y\<rfloor> \<le> roundEven y \<and> roundEven y \<le> \<lceil>y\<rceil>"
proof (cases "y - of_int \<lfloor>y\<rfloor> < 1 / 2")
  case True
  then have "roundEven y = \<lfloor>y\<rfloor>"
    by (simp add: roundEven_def)
  then show ?thesis
    by (simp add: floor_le_ceiling)
next
  case False
  then have "of_int \<lfloor>y\<rfloor> < y"
    by linarith
  then have up: "\<lfloor>y\<rfloor> + 1 \<le> \<lceil>y\<rceil>"
    by (simp add: less_ceiling_iff add1_zle_eq)
  have "roundEven y = \<lfloor>y\<rfloor> \<or> roundEven y = \<lfloor>y\<rfloor> + 1"
    by (simp add: roundEven_def Let_def)
  then show ?thesis
    using up by linarith
qed

lemma roundEven_bounded:
  assumes "\<bar>y\<bar> \<le> of_int N"
  shows "\<bar>roundEven y\<bar> \<le> N"
proof -
  have "- N \<le> \<lfloor>y\<rfloor>"
    using assms by (simp add: le_floor_iff abs_le_iff)
  moreover have "\<lceil>y\<rceil> \<le> N"
    using assms by (simp add: ceiling_le_iff abs_le_iff)
  ultimately show ?thesis
    using roundEven_between [of y] by linarith
qed

lemma fl_idem: "fl (fl x) = fl x"
proof (cases "x = 0")
  case True
  then show ?thesis
    by (simp add: fl_def)
next
  case False
  define e where "e = \<lfloor>log 2 \<bar>x\<bar>\<rfloor>"
  define q where "q = binade x - 52"
  define j where "j = roundEven (x / 2 powi q)"
  have flx: "fl x = of_int j * 2 powi q"
    using False by (simp add: fl_def q_def j_def)
  have q_lo: "- 1074 \<le> q" and q_e: "e + 1 \<le> q + 53"
    by (simp_all add: q_def binade_def e_def)
  have "\<bar>x\<bar> < 2 powi (e + 1)"
    unfolding e_def using False by (rule binade_bounds)
  also have "\<dots> \<le> 2 powi (q + 53)"
    using q_e by (intro power_int_increasing) simp_all
  also have "\<dots> = 2 ^ 53 * 2 powi q"
    by (simp add: power_int_add)
  finally have "\<bar>x\<bar> / 2 powi q < 2 ^ 53"
    by (simp add: pos_divide_less_eq)
  then have "\<bar>x / 2 powi q\<bar> \<le> of_int (2 ^ 53)"
    by (simp add: abs_divide)
  then have j: "\<bar>j\<bar> \<le> 2 ^ 53"
    unfolding j_def by (rule roundEven_bounded)
  show ?thesis
  proof (cases "\<bar>j\<bar> < 2 ^ 53")
    case True
    show ?thesis
      unfolding flx using True q_lo by (intro fl_exact [of _ j q]) simp_all
  next
    case False
    with j have top: "\<bar>j\<bar> = 2 ^ 53"
      by simp
    define h where "h = j div 2"
    have "j = 2 ^ 53 \<or> j = - (2 ^ 53)"
      using top by linarith
    then have jh: "j = 2 * h" and h: "\<bar>h\<bar> < 2 ^ 53"
      by (auto simp: h_def)
    have "of_int j * 2 powi q = of_int h * (2 :: real) powi (q + 1)"
      by (simp add: jh power_int_add)
    moreover have "- 1074 \<le> q + 1"
      using q_lo by simp
    ultimately show ?thesis
      unfolding flx using h by (intro fl_exact [of _ h "q + 1"]) simp_all
  qed
qed

lemma fl_at:
  assumes "2 powi e \<le> \<bar>x\<bar>" and "\<bar>x\<bar> < 2 powi (e + 1)" and "- 1022 \<le> e"
    and "roundEven (x / 2 powi (e - 52)) = j"
  shows "fl x = of_int j * 2 powi (e - 52)"
  using fl_eval [OF assms(1-3)] assms(4) by simp

section \<open>The transform: initial derivation and updates\<close>

lemma ready_Some:
  "topLayerAspectRatio st = Some ar \<Longrightarrow> ar \<noteq> 0 \<Longrightarrow> bottomLayerDimensions st = Some d
   \<Longrightarrow> ready st = Some (ar, d)"
  by (simp add: ready_def truthy_def)

lemma ready_None:
  "topLayerAspectRatio st = None \<or> bottomLayerDimensions st = None \<Longrightarrow> ready st = None"
  by (auto simp: ready_def split: option.splits)

lemma loadScenario_eq:
  assumes "0 < bw" and "0 < bh" and "0 < tw" and "0 < th" and "fdiv tw th \<noteq> 0"
  shows "loadScenario (bw, bh) (tw, th) =
     resetTransformEffect
       \<lparr>topLayerAspectRatio = Some (fdiv tw th),
        bottomLayerDimensions = Some \<lparr>dim_width = bw, dim_height = bh\<rparr>,
        videoTransform = \<lparr>tr_x = 0, tr_y = 0, tr_width = 0, tr_height = 0, tr_size = 100\<rparr>\<rparr>"
  using assms
  by (simp add: loadScenario_def handleTopLayerLoad_def handleBottomLayerLoad_def
      initialState_def resetTransformEffect_def ready_def truthy_def)

lemma resetTransformEffect_result:
  assumes "topLayerAspectRatio st = Some ar" and "ar \<noteq> 0"
    and "bottomLayerDimensions st = Some d"
  shows "videoTransform (resetTransformEffect st) =
           \<lparr>tr_x = Math_round (fdiv (fsub (dim_width d) (fmul (dim_width d) 0.5)) 2),
            tr_y = Math_round (fdiv (fsub (dim_height d) (fdiv (fmul (dim_width d) 0.5) ar)) 2),
            tr_width = Math_round (fmul (dim_width d) 0.5),
            tr_height = Math_round (fdiv (fmul (dim_width d) 0.5) ar),
            tr_size = 100\<rparr>"
  using assms by (simp add: resetTransformEffect_def ready_Some Let_def)

lemma loadScenario_800_600_400_400:
  "videoTransform (loadScenario (800, 600) (400, 400)) =
     \<lparr>tr_x = 200, tr_y = 100, tr_width = 400, tr_height = 400, tr_size = 100\<rparr>"
proof -
  have ar: "fdiv 400 400 = 1"
    by (simp add: fdiv_def fl_1)
  have ops: "fmul 800 (1 / 2) = 400" "fdiv 400 1 = 400" "fsub 800 400 = 400" "fdiv 400 2 = 200"
    "fsub 600 400 = 200" "fdiv 200 2 = 100"
    by (simp_all add: fmul_def fdiv_def fsub_def fl_numeral)
  show ?thesis
    by (simp add: loadScenario_eq resetTransformEffect_result ar ops Math_round_def)
qed

text \<open>
  An aspect ratio that is not a double fraction: 640 by 480 is stored as the double
  nearest to 4/3, and 1080 / 2 divided by it is the double 405.
\<close>

lemma fdiv_640_480: "fdiv 640 480 = 6004799503160661 / 4503599627370496"
  using fl_at [of 0 "640 / 480" 6004799503160661]
  by (simp add: fdiv_def roundEven_def power_int_minus)

lemma fdiv_540_ratio: "fdiv 540 (6004799503160661 / 4503599627370496) = 405"
  using fl_at [of 8 "540 / (6004799503160661 / 4503599627370496)" 7124835347988480]
  by (simp add: fdiv_def roundEven_def power_int_minus)

text \<open>
  C2 (as stated, refuted). An 800 by 600 background and a 400 by 400 foreground do
  not give \<open>y = 175\<close>: the rectangle is centred, so \<open>y = (600 - 400) / 2 = 100\<close>.
\<close>

theorem C2_scenario_counterexample:
  "videoTransform (loadScenario (800, 600) (400, 400)) \<noteq>
     \<lparr>tr_x = 200, tr_y = 175, tr_width = 400, tr_height = 400, tr_size = 100\<rparr>"
  by (simp add: loadScenario_800_600_400_400)

text \<open>
  C2 (amended). When a foreground loads (aspect ratio and surface dimensions both
  available), the transform becomes: size 100, width the rounded half of the surface
  width, and height, x and y each rounded once from the unrounded baseline
  \<open>w = surfaceWidth * 0.5\<close> and \<open>h = w / aspectRatio\<close>, namely \<open>round h\<close>,
  \<open>round ((surfaceWidth - w) / 2)\<close> and \<open>round ((surfaceHeight - h) / 2)\<close>, every
  product, quotient and difference being the double-precision one. The 800 by 600
  background with a 400 by 400 foreground yields x 200, y 100, width 400, height 400,
  size 100.
\<close>

theorem C2_resetTransformEffect:
  assumes "topLayerAspectRatio st = Some ar" and "ar \<noteq> 0"
    and "bottomLayerDimensions st = Some d"
  shows "videoTransform (resetTransformEffect st) =
           \<lparr>tr_x = Math_round (fdiv (fsub (dim_width d) (fmul (dim_width d) 0.5)) 2),
            tr_y = Math_round (fdiv (fsub (dim_height d) (fdiv (fmul (dim_width d) 0.5) ar)) 2),
            tr_width = Math_round (fmul (dim_width d) 0.5),
            tr_height = Math_round (fdiv (fmul (dim_width d) 0.5) ar),
            tr_size = 100\<rparr>
         \<and> videoTransform (loadScenario (800, 600) (400, 400)) =
           \<lparr>tr_x = 200, tr_y = 100, tr_width = 400, tr_height = 400, tr_size = 100\<rparr>"
  using resetTransformEffect_result [OF assms] loadScenario_800_600_400_400 by simp

theorem C2_resetTransformEffect_witness:
  "videoTransform (resetTransformEffect
       \<lparr>topLayerAspectRatio = Some (6004799503160661 / 4503599627370496),
        bottomLayerDimensions = Some \<lparr>dim_width = 1080, dim_height = 1920\<rparr>,
        videoTransform = \<lparr>tr_x = 7, tr_y = 7, tr_width = 7, tr_height = 7, tr_size = 7\<rparr>\<rparr>) =
     \<lparr>tr_x = 270, tr_y = 758, tr_width = 540, tr_height = 405, tr_size = 100\<rparr>"
proof -
  let ?st = "\<lparr>topLayerAspectRatio = Some (6004799503160661 / 4503599627370496),
        bottomLayerDimensions = Some \<lparr>dim_width = 1080, dim_height = 1920\<rparr>,
        videoTransform = \<lparr>tr_x = 7, tr_y = 7, tr_width = 7, tr_height = 7, tr_size = 7\<rparr>\<rparr>"
  have ar: "topLayerAspectRatio ?st = Some (6004799503160661 / 4503599627370496)"
    and nz: "(6004799503160661 / 4503599627370496 :: real) \<noteq> 0"
    and d: "bottomLayerDimensions ?st = Some \<lparr>dim_width = 1080, dim_height = 1920\<rparr>"
    by simp_all
  have ops: "fmul 1080 (1 / 2) = 540" "fsub 1080 540 = 540" "fdiv 540 2 = 270"
    "fsub 1920 405 = 1515" "fdiv 1515 2 = 1515 / 2"
    by (simp_all add: fmul_def fdiv_def fsub_def fl_numeral)
  show ?thesis
    using C2_resetTransformEffect [OF ar nz d, THEN conjunct1]
    by (simp add: ops fdiv_540_ratio Math_round_def)
qed

lemma resetTransformEffect_fields:
  "topLayerAspectRatio (resetTransformEffect st) = topLayerAspectRatio st
   \<and> bottomLayerDimensions (resetTransformEffect st) = bottomLayerDimensions st"
  by (simp add: resetTransformEffect_def Let_def split: option.splits prod.splits)

lemma handleTransformChange_fields:
  "topLayerAspectRatio (handleTransformChange st p) = topLayerAspectRatio st
   \<and> bottomLayerDimensions (handleTransformChange st p) = bottomLayerDimensions st"
  by (simp add: handleTransformChange_def Let_def split: option.splits prod.splits)

lemma handleTransformChange_merge:
  assumes "topLayerAspectRatio st = Some ar" and "ar \<noteq> 0"
    and "bottomLayerDimensions st = Some d" and "p_size p = None"
  shows "videoTransform (handleTransformChange st p) = spread (videoTransform st) p"
  using assms by (simp add: handleTransformChange_def ready_Some Let_def)

lemma handleTransformChange_size_result:
  assumes "topLayerAspectRatio st = Some ar" and "ar \<noteq> 0"
    and "bottomLayerDimensions st = Some d" and "p_size p = Some s"
  shows "videoTransform (handleTransformChange st p) =
           \<lparr>tr_x = (case p_x p of None \<Rightarrow> tr_x (videoTransform st) | Some v \<Rightarrow> v),
            tr_y = (case p_y p of None \<Rightarrow> tr_y (videoTransform st) | Some v \<Rightarrow> v),
            tr_width = Math_round (fmul (fmul (dim_width d) 0.5) (fdiv s 100)),
            tr_height = Math_round (fdiv (fmul (fmul (dim_width d) 0.5) (fdiv s 100)) ar),
            tr_size = s\<rparr>"
  using assms by (simp add: handleTransformChange_def ready_Some spread_def Let_def)

lemma fmul_baseline_100: "fmul (fmul w 0.5) (fdiv 100 100) = fmul w 0.5"
  by (simp add: fmul_def fdiv_def fl_1 fl_idem)

text \<open>
  C3 (as stated, refuted). On an 801 pixel wide surface the initial derivation gives
  the width 401 (the rounded 400.5). A size of 200 does not give that width scaled by
  200 / 100, which is 802, but 801: the unrounded 400.5 is scaled and then rounded.
\<close>

theorem C3_rounded_baseline_counterexample:
  "tr_width (videoTransform (handleTransformChange (loadScenario (801, 600) (400, 400))
      (noPartial\<lparr>p_size := Some 200\<rparr>))) = 801
   \<and> tr_width (videoTransform (loadScenario (801, 600) (400, 400))) * (200 / 100) = 802"
proof -
  let ?r = "\<lparr>topLayerAspectRatio = Some 1,
        bottomLayerDimensions = Some \<lparr>dim_width = 801, dim_height = 600\<rparr>,
        videoTransform = \<lparr>tr_x = 0, tr_y = 0, tr_width = 0, tr_height = 0, tr_size = 100\<rparr>\<rparr>"
  have ratio: "fdiv 400 400 = 1"
    by (simp add: fdiv_def fl_1)
  have loaded: "loadScenario (801, 600) (400, 400) = resetTransformEffect ?r"
    by (simp add: loadScenario_eq ratio)
  have ar: "topLayerAspectRatio (resetTransformEffect ?r) = Some 1"
    and d: "bottomLayerDimensions (resetTransformEffect ?r) =
      Some \<lparr>dim_width = 801, dim_height = 600\<rparr>"
    by (simp_all add: resetTransformEffect_fields)
  have size: "p_size (noPartial\<lparr>p_size := Some 200\<rparr>) = Some 200"
    by simp
  have ops: "fmul 801 (1 / 2) = 801 / 2" "fdiv 200 100 = 2" "fmul (801 / 2) 2 = 801"
    by (simp_all add: fmul_def fdiv_def fl_numeral)
  have updated: "tr_width (videoTransform (handleTransformChange (resetTransformEffect ?r)
      (noPartial\<lparr>p_size := Some 200\<rparr>))) = 801"
    using handleTransformChange_size_result [OF ar _ d size]
    by (simp add: ops Math_round_def)
  have initial: "tr_width (videoTransform (resetTransformEffect ?r)) = 401"
    by (simp add: resetTransformEffect_result ops Math_round_def)
  show ?thesis
    unfolding loaded using updated initial by simp
qed

text \<open>
  C3 (amended). With the aspect ratio and the surface dimensions available, an update
  whose partial contains \<open>size = s\<close> sets width to \<open>round (b * (s / 100))\<close> and height
  to \<open>round (b * (s / 100) / aspectRatio)\<close>, where \<open>b = surfaceWidth * 0.5\<close> is the
  unrounded baseline width whose rounding is the width of the initial derivation, and
  every product and quotient is the double-precision one. Both values are the same
  whatever transform was there before; at \<open>s = 100\<close> they are the width and height of
  the initial derivation; and x and y are kept when the partial does not contain
  them.
\<close>

theorem C3_size_update:
  assumes "topLayerAspectRatio st = Some ar" and "ar \<noteq> 0"
    and "bottomLayerDimensions st = Some d" and "p_size p = Some s"
  shows "tr_width (videoTransform (handleTransformChange st p)) =
           Math_round (fmul (fmul (dim_width d) 0.5) (fdiv s 100))
       \<and> tr_height (videoTransform (handleTransformChange st p)) =
           Math_round (fdiv (fmul (fmul (dim_width d) 0.5) (fdiv s 100)) ar)
       \<and> tr_width (videoTransform (resetTransformEffect st)) =
           Math_round (fmul (dim_width d) 0.5)
       \<and> tr_height (videoTransform (resetTransformEffect st)) =
           Math_round (fdiv (fmul (dim_width d) 0.5) ar)
       \<and> (\<forall>t. tr_width (videoTransform (handleTransformChange (st\<lparr>videoTransform := t\<rparr>) p)) =
               tr_width (videoTransform (handleTransformChange st p))
            \<and> tr_height (videoTransform (handleTransformChange (st\<lparr>videoTransform := t\<rparr>) p)) =
               tr_height (videoTransform (handleTransformChange st p)))
       \<and> (s = 100 \<longrightarrow>
            tr_width (videoTransform (handleTransformChange st p)) =
              tr_width (videoTransform (resetTransformEffect st))
          \<and> tr_height (videoTransform (handleTransformChange st p)) =
              tr_height (videoTransform (resetTransformEffect st)))
       \<and> (p_x p = None \<longrightarrow>
            tr_x (videoTransform (handleTransformChange st p)) = tr_x (videoTransform st))
       \<and> (p_y p = None \<longrightarrow>
            tr_y (videoTransform (handleTransformChange st p)) = tr_y (videoTransform st))"
proof -
  note now = handleTransformChange_size_result [OF assms]
  have other: "tr_width (videoTransform (handleTransformChange (st\<lparr>videoTransform := t\<rparr>) p)) =
           Math_round (fmul (fmul (dim_width d) 0.5) (fdiv s 100))
       \<and> tr_height (videoTransform (handleTransformChange (st\<lparr>videoTransform := t\<rparr>) p)) =
           Math_round (fdiv (fmul (fmul (dim_width d) 0.5) (fdiv s 100)) ar)" for t
    using assms
      handleTransformChange_size_result [of "st\<lparr>videoTransform := t\<rparr>" ar d p s]
    by simp
  note reset = resetTransformEffect_result [OF assms(1-3)]
  have w: "tr_width (videoTransform (handleTransformChange st p)) =
           Math_round (fmul (fmul (dim_width d) 0.5) (fdiv s 100))"
    and h: "tr_height (videoTransform (handleTransformChange st p)) =
           Math_round (fdiv (fmul (fmul (dim_width d) 0.5) (fdiv s 100)) ar)"
    and x: "p_x p = None \<longrightarrow>
            tr_x (videoTransform (handleTransformChange st p)) = tr_x (videoTransform st)"
    and y: "p_y p = None \<longrightarrow>
            tr_y (videoTransform (handleTransformChange st p)) = tr_y (videoTransform st)"
    by (simp_all add: now)
  have rw: "tr_width (videoTransform (resetTransformEffect st)) =
           Math_round (fmul (dim_width d) 0.5)"
    and rh: "tr_height (videoTransform (resetTransformEffect st)) =
           Math_round (fdiv (fmul (dim_width d) 0.5) ar)"
    by (simp_all add: reset)
  have full: "s = 100 \<longrightarrow>
            tr_width (videoTransform (handleTransformChange st p)) =
              tr_width (videoTransform (resetTransformEffect st))
          \<and> tr_height (videoTransform (handleTransformChange st p)) =
              tr_height (videoTransform (resetTransformEffect st))"
    unfolding w h rw rh using fmul_baseline_100 [of "dim_width d"] by auto
  have indep: "\<forall>t. tr_width (videoTransform (handleTransformChange (st\<lparr>videoTransform := t\<rparr>) p)) =
               tr_width (videoTransform (handleTransformChange st p))
            \<and> tr_height (videoTransform (handleTransformChange (st\<lparr>videoTransform := t\<rparr>) p)) =
               tr_height (videoTransform (handleTransformChange st p))"
    using other w h by simp
  show ?thesis
    using w h rw rh indep full x y by (intro conjI)
qed

lemma size_57_of_1500:
  "fdiv 57 100 = 5134103575202365 / 9007199254740992"
  "fmul 750 (5134103575202365 / 9007199254740992) = 7520659533987839 / 17592186044416"
  "fdiv (7520659533987839 / 17592186044416) 2 = 7520659533987839 / 35184372088832"
  using fl_at [of "- 1" "57 / 100" 5134103575202365]
    fl_at [of 8 "750 * (5134103575202365 / 9007199254740992)" 7520659533987839]
    fl_at [of 7 "7520659533987839 / 17592186044416 / 2" 7520659533987839]
  by (simp_all add: fdiv_def fmul_def roundEven_def power_int_minus)

theorem C3_size_update_witness:
  "tr_width (videoTransform (handleTransformChange
       \<lparr>topLayerAspectRatio = Some 2,
        bottomLayerDimensions = Some \<lparr>dim_width = 1500, dim_height = 600\<rparr>,
        videoTransform = \<lparr>tr_x = 13, tr_y = 17, tr_width = 1, tr_height = 1, tr_size = 100\<rparr>\<rparr>
       (noPartial\<lparr>p_size := Some 57\<rparr>))) = 427
   \<and> tr_height (videoTransform (handleTransformChange
       \<lparr>topLayerAspectRatio = Some 2,
        bottomLayerDimensions = Some \<lparr>dim_width = 1500, dim_height = 600\<rparr>,
        videoTransform = \<lparr>tr_x = 13, tr_y = 17, tr_width = 1, tr_height = 1, tr_size = 100\<rparr>\<rparr>
       (noPartial\<lparr>p_size := Some 57\<rparr>))) = 214
   \<and> tr_x (videoTransform (handleTransformChange
       \<lparr>topLayerAspectRatio = Some 2,
        bottomLayerDimensions = Some \<lparr>dim_width = 1500, dim_height = 600\<rparr>,
        videoTransform = \<lparr>tr_x = 13, tr_y = 17, tr_width = 1, tr_height = 1, tr_size = 100\<rparr>\<rparr>
       (noPartial\<lparr>p_size := Some 57\<rparr>))) = 13
   \<and> tr_y (videoTransform (handleTransformChange
       \<lparr>topLayerAspectRatio = Some 2,
        bottomLayerDimensions = Some \<lparr>dim_width = 1500, dim_height = 600\<rparr>,
        videoTransform = \<lparr>tr_x = 13, tr_y = 17, tr_width = 1, tr_height = 1, tr_size = 100\<rparr>\<rparr>
       (noPartial\<lparr>p_size := Some 57\<rparr>))) = 17"
proof -
  let ?st = "\<lparr>topLayerAspectRatio = Some 2,
        bottomLayerDimensions = Some \<lparr>dim_width = 1500, dim_height = 600\<rparr>,
        videoTransform = \<lparr>tr_x = 13, tr_y = 17, tr_width = 1, tr_height = 1, tr_size = 100\<rparr>\<rparr>"
  let ?p = "noPartial\<lparr>p_size := Some 57\<rparr>"
  have ar: "topLayerAspectRatio ?st = Some 2" and nz: "(2 :: real) \<noteq> 0"
    and d: "bottomLayerDimensions ?st = Some \<lparr>dim_width = 1500, dim_height = 600\<rparr>"
    and sz: "p_size ?p = Some 57"
    by simp_all
  have px: "p_x ?p = None" and py: "p_y ?p = None"
    by (simp_all add: noPartial_def)
  have half: "fmul 1500 (1 / 2) = 750"
    by (simp add: fmul_def fl_numeral)
  note t = C3_size_update [OF ar nz d sz]
  have w: "tr_width (videoTransform (handleTransformChange ?st ?p)) = 427"
    using t [THEN conjunct1] by (simp add: half size_57_of_1500 Math_round_def)
  have h: "tr_height (videoTransform (handleTransformChange ?st ?p)) = 214"
    using t [THEN conjunct2, THEN conjunct1] by (simp add: half size_57_of_1500 Math_round_def)
  have x: "tr_x (videoTransform (handleTransformChange ?st ?p)) = 13"
    using t [THEN conjunct2, THEN conjunct2, THEN conjunct2, THEN conjunct2, THEN conjunct2,
      THEN conjunct2, THEN conjunct1, THEN mp, OF px]
    by simp
  have y: "tr_y (videoTransform (handleTransformChange ?st ?p)) = 17"
    using t [THEN conjunct2, THEN conjunct2, THEN conjunct2, THEN conjunct2, THEN conjunct2,
      THEN conjunct2, THEN conjunct2, THEN mp, OF py]
    by simp
  show ?thesis
    using w h x y by (intro conjI)
qed

text \<open>
  A ratio whose quotient rounds downwards: a 32 by 75 foreground on an 800 by 600
  background has the unrounded height \<open>937.4999999999999\<close>, so the height is 937.
\<close>

lemma fdiv_32_75:
  "fdiv 32 75 = 7686143364045647 / 18014398509481984"
  "fdiv 400 (7686143364045647 / 18014398509481984) = 8246337208319999 / 8796093022208"
  using fl_at [of "- 2" "32 / 75" 7686143364045647]
    fl_at [of 9 "400 / (7686143364045647 / 18014398509481984)" 8246337208319999]
  by (simp_all add: fdiv_def roundEven_def power_int_minus)

lemma loadScenario_800_600_32_75:
  "tr_height (videoTransform (loadScenario (800, 600) (32, 75))) = 937"
proof -
  let ?r = "\<lparr>topLayerAspectRatio = Some (7686143364045647 / 18014398509481984),
        bottomLayerDimensions = Some \<lparr>dim_width = 800, dim_height = 600\<rparr>,
        videoTransform = \<lparr>tr_x = 0, tr_y = 0, tr_width = 0, tr_height = 0, tr_size = 100\<rparr>\<rparr>"
  have half: "fmul 800 (1 / 2) = 400"
    by (simp add: fmul_def fl_numeral)
  have loaded: "loadScenario (800, 600) (32, 75) = resetTransformEffect ?r"
    by (simp add: loadScenario_eq fdiv_32_75)
  have ar: "topLayerAspectRatio ?r = Some (7686143364045647 / 18014398509481984)"
    and d: "bottomLayerDimensions ?r = Some \<lparr>dim_width = 800, dim_height = 600\<rparr>"
    by simp_all
  show ?thesis
    unfolding loaded using resetTransformEffect_result [OF ar _ d]
    by (simp add: fdiv_32_75 half Math_round_def)
qed

text \<open>
  C10. While the foreground aspect ratio or the surface dimensions are not yet
  available, a transform update is dropped whatever the partial holds: the state, and
  with it every field of the transform, is returned as it was.
\<close>

theorem C10_update_dropped_until_ready:
  assumes "topLayerAspectRatio st = None \<or> bottomLayerDimensions st = None"
  shows "handleTransformChange st p = st
       \<and> videoTransform (handleTransformChange st p) = videoTransform st"
  using assms by (simp add: handleTransformChange_def ready_None)

theorem C10_update_dropped_until_ready_witness:
  "handleTransformChange
     (initialState\<lparr>topLayerAspectRatio := Some 2\<rparr>)
     \<lparr>p_x = Some 40, p_y = Some 50, p_width = None, p_height = None, p_size = Some 150\<rparr>
   = initialState\<lparr>topLayerAspectRatio := Some 2\<rparr>"
  using C10_update_dropped_until_ready
    [of "initialState\<lparr>topLayerAspectRatio := Some 2\<rparr>"
        "\<lparr>p_x = Some 40, p_y = Some 50, p_width = None, p_height = None, p_size = Some 150\<rparr>"]
  by (simp add: initialState_def)

section \<open>Colour conversion\<close>

lemma js_shl_channel:
  assumes "0 \<le> a" and "a < 256"
  shows "js_shl a 16 = a * 65536" and "js_shl a 8 = a * 256"
proof -
  have r16: "signed_take_bit 31 (a * 65536) = a * 65536"
    using assms by (intro signed_take_bit_int_eq_self) simp_all
  have r8: "signed_take_bit 31 (a * 256) = a * 256"
    using assms by (intro signed_take_bit_int_eq_self) simp_all
  have w16: "push_bit 16 (word_of_int a :: 32 word) = word_of_int (a * 65536)"
    by (simp add: push_bit_eq_mult)
  have w8: "push_bit 8 (word_of_int a :: 32 word) = word_of_int (a * 256)"
    by (simp add: push_bit_eq_mult)
  show "js_shl a 16 = a * 65536"
    unfolding js_shl_def w16 using r16 by (simp only: sint_sbintrunc') simp
  show "js_shl a 8 = a * 256"
    unfolding js_shl_def w8 using r8 by (simp only: sint_sbintrunc') simp
qed

lemma js_shl_1_24: "js_shl 1 24 = 16777216"
  by (simp add: js_shl_def)

lemma toString16_step:
  assumes "0 < n" and "d < 16"
  shows "toString16 (16 * n + d) = toString16 n @ [hexDigit d]"
proof -
  have "\<not> 16 * n + d < 16" using assms by simp
  moreover have "(16 * n + d) div 16 = n" "(16 * n + d) mod 16 = d" using assms by simp_all
  ultimately show ?thesis by (subst toString16.simps) simp
qed

lemma toString16_byte:
  assumes "0 < n" and "v < 256"
  shows "toString16 (256 * n + v) = toString16 n @ [hexDigit (v div 16), hexDigit (v mod 16)]"
proof -
  have e: "256 * n + v = 16 * (16 * n + v div 16) + v mod 16" by simp
  have hi: "v div 16 < 16" using assms by simp
  have "toString16 (256 * n + v) = toString16 (16 * (16 * n + v div 16) + v mod 16)"
    by (simp only: e)
  also have "\<dots> = toString16 (16 * n + v div 16) @ [hexDigit (v mod 16)]"
    using assms by (intro toString16_step) simp_all
  also have "toString16 (16 * n + v div 16) = toString16 n @ [hexDigit (v div 16)]"
    using assms hi by (intro toString16_step)
  finally show ?thesis by simp
qed

lemma toString16_colour:
  assumes "r < 256" and "g < 256" and "b < 256"
  shows "toString16 (16777216 + r * 65536 + g * 256 + b) =
     CHR ''1'' # [hexDigit (r div 16), hexDigit (r mod 16), hexDigit (g div 16),
       hexDigit (g mod 16), hexDigit (b div 16), hexDigit (b mod 16)]"
proof -
  have e: "16777216 + r * 65536 + g * 256 + b = 256 * (256 * (256 * 1 + r) + g) + b" by simp
  have one: "toString16 (Suc 0) = [CHR ''1'']"
    by (subst toString16.simps) (simp add: hexDigit_def)
  have "toString16 (16777216 + r * 65536 + g * 256 + b) =
      toString16 (256 * (256 * (256 * 1 + r) + g) + b)"
    by (simp only: e)
  also have "\<dots> = toString16 (256 * (256 * 1 + r) + g) @ [hexDigit (b div 16), hexDigit (b mod 16)]"
    using assms by (intro toString16_byte) simp_all
  also have "toString16 (256 * (256 * 1 + r) + g) =
      toString16 (256 * 1 + r) @ [hexDigit (g div 16), hexDigit (g mod 16)]"
    using assms by (intro toString16_byte) simp_all
  also have "toString16 (256 * 1 + r) = toString16 1 @ [hexDigit (r div 16), hexDigit (r mod 16)]"
    using assms by (intro toString16_byte) simp_all
  finally show ?thesis by (simp add: one)
qed

lemma hexDigit_upper:
  assumes "d < 16"
  shows "isHexChar (toUpperChar (hexDigit d)) \<and> hexValue (toUpperChar (hexDigit d)) = d"
proof -
  have "d = 0 \<or> d = 1 \<or> d = 2 \<or> d = 3 \<or> d = 4 \<or> d = 5 \<or> d = 6 \<or> d = 7 \<or> d = 8
      \<or> d = 9 \<or> d = 10 \<or> d = 11 \<or> d = 12 \<or> d = 13 \<or> d = 14 \<or> d = 15"
    using assms by presburger
  then show ?thesis
    by (elim disjE)
      (simp_all add: isHexChar_def toUpperChar_def hexDigit_def hexValue_def char_of_def
        bit_Suc_0_iff)
qed

lemma hexToRgb_six:
  assumes "isHexChar c1" "isHexChar c2" "isHexChar c3" "isHexChar c4" "isHexChar c5" "isHexChar c6"
  shows "hexToRgb [c1, c2, c3, c4, c5, c6] =
     Some \<lparr>rgb_r = real (16 * hexValue c1 + hexValue c2),
           rgb_g = real (16 * hexValue c3 + hexValue c4),
           rgb_b = real (16 * hexValue c5 + hexValue c6)\<rparr>"
proof -
  have "c1 \<noteq> CHR ''#''"
    using assms(1) by (auto simp: isHexChar_def)
  then show ?thesis
    using assms by (simp add: hexToRgb_def parseInt16_def)
qed

lemma hexToRgb_hash:
  assumes "isHexChar c1"
  shows "hexToRgb (CHR ''#'' # c1 # cs) = hexToRgb (c1 # cs)"
proof -
  have "c1 \<noteq> CHR ''#''"
    using assms by (auto simp: isHexChar_def)
  then show ?thesis
    by (simp add: hexToRgb_def)
qed

lemma hexToRgb_digits:
  assumes "r < 256" and "g < 256" and "b < 256"
  shows "hexToRgb (map toUpperChar [hexDigit (r div 16), hexDigit (r mod 16), hexDigit (g div 16),
       hexDigit (g mod 16), hexDigit (b div 16), hexDigit (b mod 16)]) =
     Some \<lparr>rgb_r = real r, rgb_g = real g, rgb_b = real b\<rparr>"
proof -
  have r1: "r div 16 < 16" and g1: "g div 16 < 16" and b1: "b div 16 < 16"
    using assms by simp_all
  have r0: "r mod 16 < 16" and g0: "g mod 16 < 16" and b0: "b mod 16 < 16"
    by simp_all
  note u = hexDigit_upper [OF r1] hexDigit_upper [OF r0] hexDigit_upper [OF g1]
    hexDigit_upper [OF g0] hexDigit_upper [OF b1] hexDigit_upper [OF b0]
  have "hexToRgb [toUpperChar (hexDigit (r div 16)), toUpperChar (hexDigit (r mod 16)),
      toUpperChar (hexDigit (g div 16)), toUpperChar (hexDigit (g mod 16)),
      toUpperChar (hexDigit (b div 16)), toUpperChar (hexDigit (b mod 16))] =
     Some \<lparr>rgb_r = real (16 * (r div 16) + r mod 16),
           rgb_g = real (16 * (g div 16) + g mod 16),
           rgb_b = real (16 * (b div 16) + b mod 16)\<rparr>"
    using u by (subst hexToRgb_six) (simp_all only: simp_thms)
  then show ?thesis
    by simp
qed

lemma rgbToHex_string:
  assumes "0 \<le> r" "r \<le> 255" "0 \<le> g" "g \<le> 255" "0 \<le> b" "b \<le> 255"
  shows "rgbToHex r g b = CHR ''#'' # map toUpperChar
      [hexDigit (nat r div 16), hexDigit (nat r mod 16), hexDigit (nat g div 16),
       hexDigit (nat g mod 16), hexDigit (nat b div 16), hexDigit (nat b mod 16)]"
proof -
  have sum: "js_shl 1 24 + js_shl r 16 + js_shl g 8 + b = 16777216 + r * 65536 + g * 256 + b"
    using assms by (simp add: js_shl_1_24 js_shl_channel)
  have n: "nat (16777216 + r * 65536 + g * 256 + b) = 16777216 + nat r * 65536 + nat g * 256 + nat b"
    using assms by (simp add: nat_add_distrib nat_mult_distrib)
  have pos: "\<not> 16777216 + r * 65536 + g * 256 + b < 0"
    using assms by simp
  have "int_toString16 (js_shl 1 24 + js_shl r 16 + js_shl g 8 + b) =
      toString16 (nat (16777216 + r * 65536 + g * 256 + b))"
    unfolding sum int_toString16_def using pos by (simp only: if_False)
  also have "\<dots> = toString16 (16777216 + nat r * 65536 + nat g * 256 + nat b)"
    by (simp only: n)
  also have "\<dots> = CHR ''1'' # [hexDigit (nat r div 16), hexDigit (nat r mod 16), hexDigit (nat g div 16),
       hexDigit (nat g mod 16), hexDigit (nat b div 16), hexDigit (nat b mod 16)]"
    using assms by (intro toString16_colour) simp_all
  finally show ?thesis
    by (simp add: rgbToHex_def toUpperCase_def)
qed

text \<open>
  C9. For integer channels between 0 and 255, \<open>rgbToHex\<close> gives a string that
  starts with \<open>#\<close>, and \<open>hexToRgb\<close> reads the same three channels back from it,
  with the leading \<open>#\<close> and without it.
\<close>

theorem C9_hex_roundtrip:
  assumes "0 \<le> r" "r \<le> 255" "0 \<le> g" "g \<le> 255" "0 \<le> b" "b \<le> 255"
  shows "hexToRgb (rgbToHex r g b) =
           Some \<lparr>rgb_r = real_of_int r, rgb_g = real_of_int g, rgb_b = real_of_int b\<rparr>
       \<and> hexToRgb (drop 1 (rgbToHex r g b)) =
           Some \<lparr>rgb_r = real_of_int r, rgb_g = real_of_int g, rgb_b = real_of_int b\<rparr>
       \<and> take 1 (rgbToHex r g b) = ''#''"
proof -
  let ?ds = "map toUpperChar
      [hexDigit (nat r div 16), hexDigit (nat r mod 16), hexDigit (nat g div 16),
       hexDigit (nat g mod 16), hexDigit (nat b div 16), hexDigit (nat b mod 16)]"
  have s: "rgbToHex r g b = CHR ''#'' # ?ds"
    using assms by (rule rgbToHex_string)
  have "nat r div 16 < 16" using assms by simp
  from hexDigit_upper [OF this]
  have h: "hexToRgb (CHR ''#'' # ?ds) = hexToRgb ?ds"
    by (simp add: hexToRgb_hash)
  have d1: "drop 1 (CHR ''#'' # ?ds) = ?ds" by simp
  have p: "hexToRgb ?ds = Some \<lparr>rgb_r = real (nat r), rgb_g = real (nat g), rgb_b = real (nat b)\<rparr>"
    using assms by (intro hexToRgb_digits) simp_all
  have c: "real (nat r) = real_of_int r" "real (nat g) = real_of_int g" "real (nat b) = real_of_int b"
    using assms by simp_all
  have q: "hexToRgb ?ds =
      Some \<lparr>rgb_r = real_of_int r, rgb_g = real_of_int g, rgb_b = real_of_int b\<rparr>"
    by (simp only: p c)
  have t1: "take 1 (CHR ''#'' # ?ds) = ''#''" by simp
  show ?thesis
    by (simp only: s d1 h q t1)
qed

theorem C9_hex_roundtrip_witness:
  "hexToRgb (rgbToHex 18 171 205) = Some \<lparr>rgb_r = 18, rgb_g = 171, rgb_b = 205\<rparr>
   \<and> hexToRgb (drop 1 (rgbToHex 18 171 205)) = Some \<lparr>rgb_r = 18, rgb_g = 171, rgb_b = 205\<rparr>"
  using C9_hex_roundtrip [of 18 171 205] by simp

section \<open>The chroma-key filter\<close>

lemma chromaKeyLoop_length:
  "length (chromaKeyLoop keyColor tol i data) = length data"
proof (induction keyColor tol i data rule: chromaKeyLoop.induct)
  case (1 keyColor tol i data)
  show ?case
  proof (cases "i < length data")
    case True
    with "1.IH" show ?thesis
      by (subst chromaKeyLoop.simps) simp
  next
    case False
    then show ?thesis
      by (subst chromaKeyLoop.simps) simp
  qed
qed

lemma keyedOut_in_range:
  assumes "i + 2 < length data"
  shows "keyedOut keyColor tol data i =
     (distance keyColor (real (unat (data ! i))) (real (unat (data ! (i + 1))))
        (real (unat (data ! (i + 2)))) < tol)"
  using assms by (simp add: keyedOut_def readByte_def)

lemma chromaKeyLoop_pixel:
  assumes "i = 4 * m" and "length data = 4 * n" and "k < n" and "c < 4"
  shows "chromaKeyLoop keyColor tol i data ! (4 * k + c) =
     (if m \<le> k \<and> c = 3 \<and> keyedOut keyColor tol data (4 * k) then 0 else data ! (4 * k + c))"
  using assms
proof (induction keyColor tol i data arbitrary: m rule: chromaKeyLoop.induct)
  case (1 keyColor tol i data)
  show ?case
  proof (cases "i < length data")
    case False
    then have "\<not> m \<le> k" using "1.prems" by simp
    with False show ?thesis
      by (subst chromaKeyLoop.simps) simp
  next
    case True
    define data' where "data' = (if keyedOut keyColor tol data i then data[i + 3 := 0] else data)"
    have len: "length data' = 4 * n"
      using "1.prems" by (simp add: data'_def)
    have step: "chromaKeyLoop keyColor tol i data = chromaKeyLoop keyColor tol (i + 4) data'"
      using True by (subst chromaKeyLoop.simps) (simp add: data'_def)
    have ih: "chromaKeyLoop keyColor tol (i + 4) data' ! (4 * k + c) =
        (if Suc m \<le> k \<and> c = 3 \<and> keyedOut keyColor tol data' (4 * k) then 0
         else data' ! (4 * k + c))"
      using "1.IH" [OF True, of "Suc m"] "1.prems" len
      by (simp add: data'_def)
    have rgb_same: "keyedOut keyColor tol data' (4 * k) = keyedOut keyColor tol data (4 * k)"
    proof -
      have "4 * k + 2 < length data" "4 * k + 2 < length data'"
        using "1.prems" len by simp_all
      moreover have "data' ! (4 * k) = data ! (4 * k)" "data' ! (4 * k + 1) = data ! (4 * k + 1)"
        "data' ! (4 * k + 2) = data ! (4 * k + 2)"
      proof -
        have ne: "i + 3 \<noteq> 4 * k" "i + 3 \<noteq> 4 * k + 1" "i + 3 \<noteq> 4 * k + 2"
          using "1.prems"(1) by presburger+
        show "data' ! (4 * k) = data ! (4 * k)" "data' ! (4 * k + 1) = data ! (4 * k + 1)"
          "data' ! (4 * k + 2) = data ! (4 * k + 2)"
          using ne by (simp_all add: data'_def del: One_nat_def)
      qed
      ultimately show ?thesis
        by (simp add: keyedOut_in_range)
    qed
    have here: "data' ! (4 * k + c) =
        (if k = m \<and> c = 3 \<and> keyedOut keyColor tol data i then 0 else data ! (4 * k + c))"
    proof (cases "k = m \<and> c = 3")
      case True
      then have "4 * k + c = i + 3" "i + 3 < length data"
        using "1.prems" by simp_all
      then show ?thesis
        using True by (simp add: data'_def)
    next
      case False
      then have "i + 3 \<noteq> 4 * k + c"
        using "1.prems" by presburger
      then show ?thesis
        using False by (auto simp: data'_def)
    qed
    consider "k < m" | "k = m" | "m < k" by linarith
    then show ?thesis
    proof cases
      case 1
      then show ?thesis
        unfolding step ih rgb_same here by simp
    next
      case 2
      then show ?thesis
        unfolding step ih rgb_same here using "1.prems"(1) by simp
    next
      case 3
      then show ?thesis
        unfolding step ih rgb_same here by simp
    qed
  qed
qed

lemma distance_less_iff:
  assumes "0 \<le> tol"
  shows "distance keyColor r g b < tol \<longleftrightarrow>
     (r - rgb_r keyColor) ^ 2 + (g - rgb_g keyColor) ^ 2 + (b - rgb_b keyColor) ^ 2 < tol ^ 2"
proof -
  have "sqrt (tol ^ 2) = tol"
    using assms by simp
  then have "distance keyColor r g b < tol \<longleftrightarrow>
      sqrt ((r - rgb_r keyColor) ^ 2 + (g - rgb_g keyColor) ^ 2 + (b - rgb_b keyColor) ^ 2)
        < sqrt (tol ^ 2)"
    by (simp add: distance_def)
  then show ?thesis
    by (simp only: real_sqrt_less_iff)
qed

text \<open>
  C1. A frame buffer of \<open>n\<close> pixels (four bytes each) keeps its length, and for every
  pixel \<open>k\<close> the filter leaves red, green and blue as they were and writes alpha 0
  exactly when the Euclidean distance between the pixel's colour and the key colour is
  strictly below the tolerance; otherwise, equality included, alpha keeps its value.
  So the alpha of a pixel that was not already transparent is 0 afterwards if and
  only if the distance is below the tolerance. This holds for every tolerance, those
  between 0 and 255 included.
\<close>

theorem C1_chromaKey:
  assumes "length data = 4 * n" and "k < n"
  shows "length (chromaKey cks data) = length data
       \<and> chromaKey cks data ! (4 * k) = data ! (4 * k)
       \<and> chromaKey cks data ! (4 * k + 1) = data ! (4 * k + 1)
       \<and> chromaKey cks data ! (4 * k + 2) = data ! (4 * k + 2)
       \<and> chromaKey cks data ! (4 * k + 3) =
           (if distance (color cks) (real (unat (data ! (4 * k))))
                 (real (unat (data ! (4 * k + 1)))) (real (unat (data ! (4 * k + 2))))
               < tolerance cks
            then 0 else data ! (4 * k + 3))
       \<and> (data ! (4 * k + 3) \<noteq> 0 \<longrightarrow>
            (chromaKey cks data ! (4 * k + 3) = 0 \<longleftrightarrow>
             distance (color cks) (real (unat (data ! (4 * k))))
                 (real (unat (data ! (4 * k + 1)))) (real (unat (data ! (4 * k + 2))))
               < tolerance cks))"
proof -
  have in_range: "4 * k + 2 < length data"
    using assms by simp
  have px: "chromaKey cks data ! (4 * k + c) =
      (if c = 3 \<and> keyedOut (color cks) (tolerance cks) data (4 * k) then 0
       else data ! (4 * k + c))" if "c < 4" for c
    using chromaKeyLoop_pixel [of 0 0 data n k c "color cks" "tolerance cks"] assms that
    by (simp add: chromaKey_def)
  have c0: "chromaKey cks data ! (4 * k) = data ! (4 * k)"
    using px [of 0] by simp
  have c1: "chromaKey cks data ! (4 * k + 1) = data ! (4 * k + 1)"
    using px [of 1] by simp
  have c2: "chromaKey cks data ! (4 * k + 2) = data ! (4 * k + 2)"
    using px [of 2] by simp
  have c3: "chromaKey cks data ! (4 * k + 3) =
           (if distance (color cks) (real (unat (data ! (4 * k))))
                 (real (unat (data ! (4 * k + 1)))) (real (unat (data ! (4 * k + 2))))
               < tolerance cks
            then 0 else data ! (4 * k + 3))"
    using px [of 3] by (simp add: keyedOut_in_range [OF in_range])
  have len: "length (chromaKey cks data) = length data"
    by (simp add: chromaKey_def chromaKeyLoop_length)
  show ?thesis
    unfolding c0 c1 c2 c3 len by simp
qed

theorem C1_chromaKey_witness:
  "chromaKey \<lparr>color = \<lparr>rgb_r = 0, rgb_g = 255, rgb_b = 0\<rparr>, hexColor = ''#00FF00'',
       tolerance = 50\<rparr> [0, 255, 0, 255, 30, 215, 0, 200] ! 3 = 0
   \<and> chromaKey \<lparr>color = \<lparr>rgb_r = 0, rgb_g = 255, rgb_b = 0\<rparr>, hexColor = ''#00FF00'',
       tolerance = 50\<rparr> [0, 255, 0, 255, 30, 215, 0, 200] ! 7 = 200
   \<and> chromaKey \<lparr>color = \<lparr>rgb_r = 0, rgb_g = 255, rgb_b = 0\<rparr>, hexColor = ''#00FF00'',
       tolerance = 50\<rparr> [0, 255, 0, 255, 30, 215, 0, 200] ! 4 = 30"
  using
    C1_chromaKey [of "[0, 255, 0, 255, 30, 215, 0, 200]" 2 0
      "\<lparr>color = \<lparr>rgb_r = 0, rgb_g = 255, rgb_b = 0\<rparr>, hexColor = ''#00FF00'', tolerance = 50\<rparr>"]
    C1_chromaKey [of "[0, 255, 0, 255, 30, 215, 0, 200]" 2 1
      "\<lparr>color = \<lparr>rgb_r = 0, rgb_g = 255, rgb_b = 0\<rparr>, hexColor = ''#00FF00'', tolerance = 50\<rparr>"]
  by (simp add: distance_less_iff)

section \<open>Position as a percentage\<close>






lemma toFixed1_50: "toFixed1 50 = 50"
  by (simp add: toFixed1_def)


lemma roundTrip_lr:
  assumes "ar \<noteq> 0"
  shows "roundTrip d ar t lr_pos_percent =
     Some (noPartial\<lparr>p_x := Some (percentToPixel (dim_width d - tr_width t)
       (toFixed1 (positionPercent (tr_x t) (dim_width d - tr_width t))))\<rparr>)"
  using assms
  by (simp add: roundTrip_def percentEffect_def handlePercentageInputChange_def truthy_def Let_def)



lemma roundTrip_wide_surface:
  \<comment> \<open>one decimal of a percentage is more than a pixel on a wide enough surface\<close>
  "roundTrip \<lparr>dim_width = 3840, dim_height = 2160\<rparr> 1
      \<lparr>tr_x = 2, tr_y = 0, tr_width = 0, tr_height = 0, tr_size = 0\<rparr>
      lr_pos_percent = Some (noPartial\<lparr>p_x := Some 4\<rparr>)"
  by (simp add: roundTrip_lr positionPercent_def toFixed1_def percentToPixel_def Math_round_def)


section \<open>Rounding of the pixel values\<close>

lemma Math_round_Ints: "Math_round v \<in> \<int>"
  by (simp add: Math_round_def)

lemma resetTransformEffect_Ints:
  assumes "ready st = Some (ar, d)"
  shows "tr_x (videoTransform (resetTransformEffect st)) \<in> \<int>
       \<and> tr_y (videoTransform (resetTransformEffect st)) \<in> \<int>
       \<and> tr_width (videoTransform (resetTransformEffect st)) \<in> \<int>
       \<and> tr_height (videoTransform (resetTransformEffect st)) \<in> \<int>"
  using assms by (simp add: resetTransformEffect_def Let_def Math_round_Ints)

lemma handleTransformChange_size_Ints:
  assumes "ready st = Some (ar, d)" and "p_size p = Some s"
  shows "tr_width (videoTransform (handleTransformChange st p)) \<in> \<int>
       \<and> tr_height (videoTransform (handleTransformChange st p)) \<in> \<int>"
  using assms by (simp add: handleTransformChange_def Let_def Math_round_Ints)

lemma handleDragMove_Ints:
  assumes "handleDragMove isDragging dragStartRef pos = Some p"
  shows "\<exists>vx vy. p_x p = Some vx \<and> p_y p = Some vy \<and> vx \<in> \<int> \<and> vy \<in> \<int>"
  using assms
  by (auto simp: handleDragMove_def Let_def Math_round_Ints
      split: if_splits option.splits prod.splits)

lemma percentToPixel_Ints:
  assumes "0 < movable"
  shows "percentToPixel movable v \<in> \<int>"
  using assms by (simp add: percentToPixel_def Math_round_Ints)

text \<open>
  C7 (not met by the code). Every other write of a pixel value goes
  through \<open>Math.round\<close> (the four lemmas above), but the branch of the percentage
  handler for a movable range of at most 0 writes \<open>movableRange / 2\<close> as it is. An 800
  by 601 background with a square foreground at size 200 has a foreground 800 pixels
  high and a movable height of -199; entering a percentage then sets
  \<open>y = -99.5\<close>.
\<close>

theorem C7_unrounded_centre:
  "videoTransform (handleTransformChange (loadScenario (800, 601) (400, 400))
      (noPartial\<lparr>p_size := Some 200\<rparr>)) =
     \<lparr>tr_x = 200, tr_y = 101, tr_width = 800, tr_height = 800, tr_size = 200\<rparr>
   \<and> handlePercentageInputChange (Some \<lparr>dim_width = 800, dim_height = 601\<rparr>) (Some 1)
       \<lparr>tr_x = 200, tr_y = 101, tr_width = 800, tr_height = 800, tr_size = 200\<rparr>
       ud_pos_percent (Some 50) = Some (noPartial\<lparr>p_y := Some (- 199 / 2)\<rparr>)
   \<and> tr_y (videoTransform (handleTransformChange
       (handleTransformChange (loadScenario (800, 601) (400, 400)) (noPartial\<lparr>p_size := Some 200\<rparr>))
       (noPartial\<lparr>p_y := Some (- 199 / 2)\<rparr>))) = - 199 / 2
   \<and> (- 199 / 2 :: real) \<notin> \<int>"
proof -
  let ?r = "\<lparr>topLayerAspectRatio = Some 1,
        bottomLayerDimensions = Some \<lparr>dim_width = 800, dim_height = 601\<rparr>,
        videoTransform = \<lparr>tr_x = 0, tr_y = 0, tr_width = 0, tr_height = 0, tr_size = 100\<rparr>\<rparr>"
  let ?p = "noPartial\<lparr>p_size := Some 200\<rparr>"
  let ?q = "noPartial\<lparr>p_y := Some (- 199 / 2)\<rparr>"
  have ratio: "fdiv 400 400 = 1"
    by (simp add: fdiv_def fl_1)
  have loaded: "loadScenario (800, 601) (400, 400) = resetTransformEffect ?r"
    by (simp add: loadScenario_eq ratio)
  have ar: "topLayerAspectRatio (resetTransformEffect ?r) = Some 1"
    and d: "bottomLayerDimensions (resetTransformEffect ?r) =
      Some \<lparr>dim_width = 800, dim_height = 601\<rparr>"
    by (simp_all add: resetTransformEffect_fields)
  have ops: "fmul 800 (1 / 2) = 400" "fdiv 400 1 = 400" "fsub 800 400 = 400" "fdiv 400 2 = 200"
    "fsub 601 400 = 201" "fdiv 201 2 = 201 / 2" "fdiv 200 100 = 2" "fmul 400 2 = 800"
    "fdiv 800 1 = 800"
    by (simp_all add: fmul_def fdiv_def fsub_def fl_numeral)
  have first: "videoTransform (resetTransformEffect ?r) =
      \<lparr>tr_x = 200, tr_y = 101, tr_width = 400, tr_height = 400, tr_size = 100\<rparr>"
    by (simp add: resetTransformEffect_result ops Math_round_def)
  have size: "p_size ?p = Some 200"
    by simp
  have sized: "videoTransform (handleTransformChange (resetTransformEffect ?r) ?p) =
      \<lparr>tr_x = 200, tr_y = 101, tr_width = 800, tr_height = 800, tr_size = 200\<rparr>"
    using handleTransformChange_size_result [OF ar _ d size]
    by (simp add: first ops Math_round_def noPartial_def)
  have entered: "handlePercentageInputChange (Some \<lparr>dim_width = 800, dim_height = 601\<rparr>) (Some 1)
       \<lparr>tr_x = 200, tr_y = 101, tr_width = 800, tr_height = 800, tr_size = 200\<rparr>
       ud_pos_percent (Some 50) = Some (noPartial\<lparr>p_y := Some (- 199 / 2)\<rparr>)"
    by (simp add: handlePercentageInputChange_def truthy_def percentToPixel_def)
  have ar': "topLayerAspectRatio (handleTransformChange (resetTransformEffect ?r) ?p) = Some 1"
    and d': "bottomLayerDimensions (handleTransformChange (resetTransformEffect ?r) ?p) =
      Some \<lparr>dim_width = 800, dim_height = 601\<rparr>"
    by (simp_all add: handleTransformChange_fields ar d)
  have nosize: "p_size ?q = None"
    by (simp add: noPartial_def)
  have written: "tr_y (videoTransform (handleTransformChange
       (handleTransformChange (resetTransformEffect ?r) ?p) ?q)) = - 199 / 2"
    using handleTransformChange_merge [OF ar' _ d' nosize]
    by (simp add: spread_def noPartial_def)
  have frac: "(- 199 / 2 :: real) \<notin> \<int>"
    by simp
  show ?thesis
    unfolding loaded using sized entered written frac by (intro conjI)
qed

section \<open>The render loop\<close>

lemma render_frameRequested: "frameRequested (render inp)"
  by (simp add: render_def Let_def)

lemma renderLoop_length: "length (renderLoop inp readbacks) = length readbacks"
  by (induction readbacks) (simp_all add: Let_def render_frameRequested)

lemma renderLoop_nth:
  assumes "k < length readbacks"
  shows "renderLoop inp readbacks ! k = render (inp\<lparr>getImageData := readbacks ! k\<rparr>)"
  using assms
proof (induction readbacks arbitrary: k)
  case Nil
  then show ?case by simp
next
  case (Cons readback later)
  show ?case
  proof (cases k)
    case 0
    then show ?thesis by (simp add: Let_def)
  next
    case (Suc j)
    with Cons show ?thesis
      by (simp add: Let_def render_frameRequested)
  qed
qed

text \<open>
  C5. Let the foreground be loaded with a nonzero intrinsic size. In every frame
  whose pixel read-back fails, the frame draws the background and then the unfiltered
  foreground element itself at the transform rectangle, logs one error, and requests
  the next frame; the loop produces a frame for every entry of the schedule, so it
  never stops. A frame whose read-back succeeds draws the filtered buffer and logs
  nothing, whatever happened in the frames before it.
\<close>

theorem C5_readback_failure:
  assumes "topLayerElement inp = Some el" and "intrinsicSize el = (w, h)"
    and "0 < w" and "0 < h" and "k < length readbacks"
  shows "length (renderLoop inp readbacks) = length readbacks
       \<and> frameRequested (renderLoop inp readbacks ! k)
       \<and> (readbacks ! k = None \<longrightarrow>
            ctxOps (renderLoop inp readbacks ! k) =
              bottomOps inp @
              [DrawImage TopLayer (tr_x (renderTransform inp)) (tr_y (renderTransform inp))
                 (tr_width (renderTransform inp)) (tr_height (renderTransform inp))]
            \<and> consoleErrors (renderLoop inp readbacks ! k) =
              [''Error processing top layer frame (getImageData):''])
       \<and> (\<forall>data. readbacks ! k = Some data \<longrightarrow>
            ctxOps (renderLoop inp readbacks ! k) =
              bottomOps inp @
              [DrawImage (OffscreenCanvas (chromaKey (chromaKeySettings inp) data))
                 (tr_x (renderTransform inp)) (tr_y (renderTransform inp))
                 (tr_width (renderTransform inp)) (tr_height (renderTransform inp))]
            \<and> consoleErrors (renderLoop inp readbacks ! k) = [])"
proof -
  have frame: "renderLoop inp readbacks ! k = render (inp\<lparr>getImageData := readbacks ! k\<rparr>)"
    using assms(5) by (rule renderLoop_nth)
  have failed: "ctxOps (render (inp\<lparr>getImageData := None\<rparr>)) =
        bottomOps inp @
        [DrawImage TopLayer (tr_x (renderTransform inp)) (tr_y (renderTransform inp))
           (tr_width (renderTransform inp)) (tr_height (renderTransform inp))]
      \<and> consoleErrors (render (inp\<lparr>getImageData := None\<rparr>)) =
        [''Error processing top layer frame (getImageData):'']"
    using assms(1-4) by (simp add: render_def bottomOps_def Let_def)
  have filtered: "ctxOps (render (inp\<lparr>getImageData := Some data\<rparr>)) =
        bottomOps inp @
        [DrawImage (OffscreenCanvas (chromaKey (chromaKeySettings inp) data))
           (tr_x (renderTransform inp)) (tr_y (renderTransform inp))
           (tr_width (renderTransform inp)) (tr_height (renderTransform inp))]
      \<and> consoleErrors (render (inp\<lparr>getImageData := Some data\<rparr>)) = []" for data
    using assms(1-4) by (simp add: render_def bottomOps_def Let_def)
  show ?thesis
    unfolding frame using failed filtered
    by (auto simp: renderLoop_length render_frameRequested)
qed

theorem C5_readback_failure_witness:
  "length (renderLoop frameExample [Some [0, 255, 0, 255], None, Some [0, 255, 0, 255]]) = 3
   \<and> frameRequested (renderLoop frameExample [Some [0, 255, 0, 255], None, Some [0, 255, 0, 255]] ! 1)
   \<and> ctxOps (renderLoop frameExample [Some [0, 255, 0, 255], None, Some [0, 255, 0, 255]] ! 1) =
       [DrawImage BottomLayer 0 0 800 600, DrawImage TopLayer 200 100 400 400]
   \<and> consoleErrors (renderLoop frameExample [Some [0, 255, 0, 255], None, Some [0, 255, 0, 255]] ! 1) =
       [''Error processing top layer frame (getImageData):'']"
  using C5_readback_failure [of frameExample "VideoElement 400 400 False" 400 400 1
      "[Some [0, 255, 0, 255], None, Some [0, 255, 0, 255]]"]
  by (simp add: frameExample_def bottomOps_def)

section \<open>Recording\<close>

lemma firstSupported_Some:
  assumes "firstSupported supported types = Some t"
  shows "\<exists>before after. types = before @ t # after
           \<and> (\<forall>u \<in> set before. \<not> supported (mimeType u)) \<and> supported (mimeType t)"
  using assms
proof (induction types)
  case Nil
  then show ?case by simp
next
  case (Cons type types)
  show ?case
  proof (cases "supported (mimeType type)")
    case True
    with Cons.prems have "t = type" by simp
    with True have "type # types = [] @ t # types
        \<and> (\<forall>u \<in> set []. \<not> supported (mimeType u)) \<and> supported (mimeType t)"
      by simp
    then show ?thesis by blast
  next
    case False
    with Cons obtain before after where
      "types = before @ t # after" "\<forall>u \<in> set before. \<not> supported (mimeType u)"
      "supported (mimeType t)"
      by auto
    with False have "type # types = (type # before) @ t # after
        \<and> (\<forall>u \<in> set (type # before). \<not> supported (mimeType u)) \<and> supported (mimeType t)"
      by simp
    then show ?thesis by blast
  qed
qed

lemma firstSupported_None:
  "firstSupported supported types = None \<longleftrightarrow> (\<forall>u \<in> set types. \<not> supported (mimeType u))"
  by (induction types) simp_all

lemma candidates_wellformed:
  assumes "t \<in> set (typesToCheck safari)"
  shows "mimeType t \<noteq> ''''
       \<and> take (length (''video/'' @ extension t)) (mimeType t) = ''video/'' @ extension t"
  using assms
  by (cases safari) (auto simp: typesToCheck_def mp4PrioritizedTypes_def webmPrioritizedTypes_def)

lemma connectAudio_hasAudio:
  "fst (connectAudio vs (h, w)) \<longleftrightarrow> h \<or> (\<exists>v \<in> set vs. readyState v > 0 \<and> connects v)"
  by (induction vs arbitrary: h w) auto

lemma unmuted_hasAudio:
  "fst (connectAudio (map (\<lambda>v. v\<lparr>muted := False\<rparr>) vs) (False, [])) \<longleftrightarrow>
     (\<exists>v \<in> set vs. readyState v > 0 \<and> connects v)"
  by (simp add: connectAudio_hasAudio)

lemma handleStartRecording_started:
  assumes "canvasPresent browser"
    and "firstSupported (isTypeSupported browser) (typesToCheck (isSafari browser)) = Some t"
  shows "recording (handleStartRecording browser st)
       \<and> mediaRecorderRef (handleStartRecording browser st) =
           Some \<lparr>stream = VideoTrack #
                   (if \<exists>v \<in> set (videoElements st). readyState v > 0 \<and> connects v
                    then map AudioTrack (sinkAudioTracks browser) else []),
                 recorderMimeType = mimeType t, downloadExtension = extension t,
                 recordedChunks = [], started = True\<rparr>
       \<and> downloads (handleStartRecording browser st) = downloads st"
proof -
  obtain before after where "typesToCheck (isSafari browser) = before @ t # after"
    using firstSupported_Some [OF assms(2)] by blast
  then have "t \<in> set (typesToCheck (isSafari browser))"
    by simp
  then have nonempty: "mimeType t \<noteq> ''''"
    by (simp add: candidates_wellformed)
  have chosen: "getSupportedMimeType (isSafari browser) (isTypeSupported browser) = t"
    by (simp add: getSupportedMimeType_def assms(2))
  obtain h w where c: "connectAudio (map (\<lambda>v. v\<lparr>muted := False\<rparr>) (videoElements st)) (False, []) = (h, w)"
    by (cases "connectAudio (map (\<lambda>v. v\<lparr>muted := False\<rparr>) (videoElements st)) (False, [])")
  have h: "h \<longleftrightarrow> (\<exists>v \<in> set (videoElements st). readyState v > 0 \<and> connects v)"
    using unmuted_hasAudio [of "videoElements st"] c by simp
  show ?thesis
    using assms(1) nonempty
    by (simp add: handleStartRecording_def Let_def chosen c h)
qed

lemma handleStartRecording_unsupported:
  assumes "canvasPresent browser"
    and "\<forall>u \<in> set (typesToCheck (isSafari browser)). \<not> isTypeSupported browser (mimeType u)"
  shows "recording (handleStartRecording browser st) = recording st
       \<and> mediaRecorderRef (handleStartRecording browser st) = mediaRecorderRef st
       \<and> (\<forall>v \<in> set (videoElements (handleStartRecording browser st)). muted v)
       \<and> alerts (handleStartRecording browser st) =
           alerts st @ [''Sorry, your browser doesn't support video recording.'']"
proof -
  have "firstSupported (isTypeSupported browser) (typesToCheck (isSafari browser)) = None"
    using assms(2) by (simp add: firstSupported_None)
  then have chosen: "mimeType (getSupportedMimeType (isSafari browser) (isTypeSupported browser)) = ''''"
    by (simp add: getSupportedMimeType_def)
  obtain h w where c: "connectAudio (map (\<lambda>v. v\<lparr>muted := False\<rparr>) (videoElements st)) (False, []) = (h, w)"
    by (cases "connectAudio (map (\<lambda>v. v\<lparr>muted := False\<rparr>) (videoElements st)) (False, [])")
  show ?thesis
    using assms(1) by (simp add: handleStartRecording_def Let_def chosen c)
qed

text \<open>
  C4. The candidate list depends on the browser family: Safari probes MP4 first, the
  others WebM first. If any candidate is supported, the first supported one in that
  order is chosen, recording starts with it, its media type names the container of its
  extension, and the file downloaded at stop is \<open>videyo_export.\<close> followed by exactly
  that extension. If no candidate is supported, start does not enter the recording
  state and installs no recorder, every video element is muted again, and the
  recording-unsupported alert is raised.
\<close>

theorem C4_format_selection:
  assumes "canvasPresent browser"
  shows "extension (hd (typesToCheck True)) = ''mp4''
       \<and> extension (hd (typesToCheck False)) = ''webm''
       \<and> ((\<exists>u \<in> set (typesToCheck (isSafari browser)). isTypeSupported browser (mimeType u)) \<longrightarrow>
            (\<exists>t. firstSupported (isTypeSupported browser) (typesToCheck (isSafari browser)) = Some t))
       \<and> (\<forall>t. firstSupported (isTypeSupported browser) (typesToCheck (isSafari browser)) = Some t \<longrightarrow>
            (\<exists>before after. typesToCheck (isSafari browser) = before @ t # after
                \<and> (\<forall>u \<in> set before. \<not> isTypeSupported browser (mimeType u))
                \<and> isTypeSupported browser (mimeType t))
            \<and> recording (handleStartRecording browser st)
            \<and> (\<exists>r. mediaRecorderRef (handleStartRecording browser st) = Some r
                  \<and> recorderMimeType r = mimeType t \<and> downloadExtension r = extension t)
            \<and> take (length (''video/'' @ extension t)) (mimeType t) = ''video/'' @ extension t
            \<and> downloads (handleStopRecording (handleStartRecording browser st)) =
                downloads st @ [''videyo_export.'' @ extension t])
       \<and> ((\<forall>u \<in> set (typesToCheck (isSafari browser)). \<not> isTypeSupported browser (mimeType u)) \<longrightarrow>
            recording (handleStartRecording browser st) = recording st
            \<and> mediaRecorderRef (handleStartRecording browser st) = mediaRecorderRef st
            \<and> (\<forall>v \<in> set (videoElements (handleStartRecording browser st)). muted v)
            \<and> alerts (handleStartRecording browser st) =
                alerts st @ [''Sorry, your browser doesn't support video recording.''])"
proof -
  have order: "extension (hd (typesToCheck True)) = ''mp4''
      \<and> extension (hd (typesToCheck False)) = ''webm''"
    by (simp add: typesToCheck_def mp4PrioritizedTypes_def webmPrioritizedTypes_def)
  have some: "\<exists>t. firstSupported (isTypeSupported browser) (typesToCheck (isSafari browser)) = Some t"
    if "\<exists>u \<in> set (typesToCheck (isSafari browser)). isTypeSupported browser (mimeType u)"
    using that firstSupported_None [of "isTypeSupported browser" "typesToCheck (isSafari browser)"]
    by (cases "firstSupported (isTypeSupported browser) (typesToCheck (isSafari browser))") auto
  have chosen: "(\<exists>before after. typesToCheck (isSafari browser) = before @ t # after
                \<and> (\<forall>u \<in> set before. \<not> isTypeSupported browser (mimeType u))
                \<and> isTypeSupported browser (mimeType t))
            \<and> recording (handleStartRecording browser st)
            \<and> (\<exists>r. mediaRecorderRef (handleStartRecording browser st) = Some r
                  \<and> recorderMimeType r = mimeType t \<and> downloadExtension r = extension t)
            \<and> take (length (''video/'' @ extension t)) (mimeType t) = ''video/'' @ extension t
            \<and> downloads (handleStopRecording (handleStartRecording browser st)) =
                downloads st @ [''videyo_export.'' @ extension t]"
    if t: "firstSupported (isTypeSupported browser) (typesToCheck (isSafari browser)) = Some t" for t
  proof -
    note first = firstSupported_Some [OF t]
    then have "t \<in> set (typesToCheck (isSafari browser))"
      by auto
    then have container: "take (length (''video/'' @ extension t)) (mimeType t) = ''video/'' @ extension t"
      by (simp only: candidates_wellformed)
    note run = handleStartRecording_started [OF assms t, of st]
    have stop: "downloads (handleStopRecording (handleStartRecording browser st)) =
        downloads st @ [''videyo_export.'' @ extension t]"
      using run by (simp add: handleStopRecording_def onstop_def)
    show ?thesis
      using first container run stop by simp
  qed
  note none = handleStartRecording_unsupported [OF assms, of st]
  show ?thesis
    using order some chosen none by blast
qed

theorem C4_format_selection_witness:
  "downloads (handleStopRecording (handleStartRecording mp4OnlyBrowser (session [readyVideo]))) =
     [''videyo_export.mp4'']
   \<and> recording (handleStartRecording mp4OnlyBrowser (session [readyVideo]))
   \<and> recording (handleStartRecording noRecorderBrowser (session [readyVideo])) = False
   \<and> alerts (handleStartRecording noRecorderBrowser (session [readyVideo])) =
       [''Sorry, your browser doesn't support video recording.'']"
proof -
  have canvas: "canvasPresent mp4OnlyBrowser" "canvasPresent noRecorderBrowser"
    by (simp_all add: mp4OnlyBrowser_def noRecorderBrowser_def)
  have fallback: "firstSupported (isTypeSupported mp4OnlyBrowser)
      (typesToCheck (isSafari mp4OnlyBrowser)) = Some \<lparr>mimeType = ''video/mp4'', extension = ''mp4''\<rparr>"
    by (simp add: mp4OnlyBrowser_def typesToCheck_def webmPrioritizedTypes_def)
  have unsupported: "\<forall>u \<in> set (typesToCheck (isSafari noRecorderBrowser)).
      \<not> isTypeSupported noRecorderBrowser (mimeType u)"
    by (simp add: noRecorderBrowser_def)
  note chosen = C4_format_selection [OF canvas(1), of "session [readyVideo]",
      THEN conjunct2, THEN conjunct2, THEN conjunct2, THEN conjunct1, THEN spec, THEN mp, OF fallback]
  note refused = C4_format_selection [OF canvas(2), of "session [readyVideo]",
      THEN conjunct2, THEN conjunct2, THEN conjunct2, THEN conjunct2, THEN mp, OF unsupported]
  have a: "downloads (handleStopRecording (handleStartRecording mp4OnlyBrowser (session [readyVideo]))) =
      [''videyo_export.mp4'']"
    using chosen [THEN conjunct2, THEN conjunct2, THEN conjunct2, THEN conjunct2]
    by (simp add: session_def)
  have b: "recording (handleStartRecording mp4OnlyBrowser (session [readyVideo]))"
    using chosen [THEN conjunct2, THEN conjunct1] .
  have c: "recording (handleStartRecording noRecorderBrowser (session [readyVideo])) = False"
    using refused [THEN conjunct1] by (simp add: session_def)
  have d: "alerts (handleStartRecording noRecorderBrowser (session [readyVideo])) =
      [''Sorry, your browser doesn't support video recording.'']"
    using refused [THEN conjunct2, THEN conjunct2, THEN conjunct2] by (simp add: session_def)
  show ?thesis
    using a b c d by (intro conjI)
qed

text \<open>
  C8. When the surface is present and some candidate format is supported, start
  enters the recording state whatever happens to the audio connections: a video
  element whose connection throws, or that is not ready, is passed over. The recorded
  stream is the video track followed by the audio tracks of the sink if at least one
  element was connected, and the video track alone otherwise; so, the sink having an
  audio track, the stream contains an audio track if and only if at least one
  connection succeeded.
\<close>

theorem C8_audio_routing:
  assumes "canvasPresent browser"
    and "firstSupported (isTypeSupported browser) (typesToCheck (isSafari browser)) = Some t"
  shows "recording (handleStartRecording browser st)
       \<and> (\<exists>r. mediaRecorderRef (handleStartRecording browser st) = Some r
            \<and> stream r = VideoTrack #
                  (if \<exists>v \<in> set (videoElements st). readyState v > 0 \<and> connects v
                   then map AudioTrack (sinkAudioTracks browser) else [])
            \<and> (sinkAudioTracks browser \<noteq> [] \<longrightarrow>
                 ((\<exists>i. AudioTrack i \<in> set (stream r)) \<longleftrightarrow>
                  (\<exists>v \<in> set (videoElements st). readyState v > 0 \<and> connects v))))"
proof -
  note run = handleStartRecording_started [OF assms, of st]
  define r where "r = \<lparr>stream = VideoTrack #
                   (if \<exists>v \<in> set (videoElements st). readyState v > 0 \<and> connects v
                    then map AudioTrack (sinkAudioTracks browser) else []),
                 recorderMimeType = mimeType t, downloadExtension = extension t,
                 recordedChunks = [], started = True\<rparr>"
  have ref: "mediaRecorderRef (handleStartRecording browser st) = Some r"
    using run by (simp add: r_def)
  have str: "stream r = VideoTrack #
                  (if \<exists>v \<in> set (videoElements st). readyState v > 0 \<and> connects v
                   then map AudioTrack (sinkAudioTracks browser) else [])"
    by (simp add: r_def)
  have iff: "(\<exists>i. AudioTrack i \<in> set (stream r)) \<longleftrightarrow>
      (\<exists>v \<in> set (videoElements st). readyState v > 0 \<and> connects v)"
    if "sinkAudioTracks browser \<noteq> []"
  proof (cases "\<exists>v \<in> set (videoElements st). readyState v > 0 \<and> connects v")
    case True
    have "hd (sinkAudioTracks browser) \<in> set (sinkAudioTracks browser)"
      using that by simp
    then have "AudioTrack (hd (sinkAudioTracks browser)) \<in> set (stream r)"
      unfolding str using True by (simp only: if_True) simp
    with True show ?thesis by blast
  next
    case False
    then have "stream r = [VideoTrack]"
      unfolding str by (simp only: if_False)
    with False show ?thesis by simp
  qed
  show ?thesis
    using run ref str iff by blast
qed

theorem C8_audio_routing_witness:
  "recording (handleStartRecording mp4OnlyBrowser (session [brokenVideo]))
   \<and> (\<exists>r. mediaRecorderRef (handleStartRecording mp4OnlyBrowser (session [brokenVideo])) = Some r
        \<and> stream r = [VideoTrack])
   \<and> (\<exists>r. mediaRecorderRef (handleStartRecording mp4OnlyBrowser (session [brokenVideo, readyVideo])) = Some r
        \<and> stream r = [VideoTrack, AudioTrack 0])"
proof -
  have canvas: "canvasPresent mp4OnlyBrowser"
    by (simp add: mp4OnlyBrowser_def)
  have fallback: "firstSupported (isTypeSupported mp4OnlyBrowser)
      (typesToCheck (isSafari mp4OnlyBrowser)) = Some \<lparr>mimeType = ''video/mp4'', extension = ''mp4''\<rparr>"
    by (simp add: mp4OnlyBrowser_def typesToCheck_def webmPrioritizedTypes_def)
  note one = C8_audio_routing [OF canvas fallback, of "session [brokenVideo]"]
  note two = C8_audio_routing [OF canvas fallback, of "session [brokenVideo, readyVideo]"]
  have none: "\<not> (\<exists>v \<in> set (videoElements (session [brokenVideo])). readyState v > 0 \<and> connects v)"
    by (simp add: session_def brokenVideo_def)
  have some: "\<exists>v \<in> set (videoElements (session [brokenVideo, readyVideo])). readyState v > 0 \<and> connects v"
    by (simp add: session_def brokenVideo_def readyVideo_def)
  have sink: "map AudioTrack (sinkAudioTracks mp4OnlyBrowser) = [AudioTrack 0]"
    by (simp add: mp4OnlyBrowser_def)
  have a: "recording (handleStartRecording mp4OnlyBrowser (session [brokenVideo]))"
    using one [THEN conjunct1] .
  have b: "\<exists>r. mediaRecorderRef (handleStartRecording mp4OnlyBrowser (session [brokenVideo])) = Some r
        \<and> stream r = [VideoTrack]"
    using one [THEN conjunct2] none by (simp only: if_False) blast
  have c: "\<exists>r. mediaRecorderRef (handleStartRecording mp4OnlyBrowser (session [brokenVideo, readyVideo])) = Some r
        \<and> stream r = [VideoTrack, AudioTrack 0]"
    using two [THEN conjunct2] some sink by (simp only: if_True) blast
  show ?thesis
    using a b c by (intro conjI)
qed

end
